theory Spec2Isabelle
  imports Main "HOL-Library.AList" "HOL-Library.Sublist"
begin

section \<open>Strings and paths\<close>

text \<open>
  Paths, codec names and command arguments are Python \<open>str\<close> values; they are modelled
  as \<open>string\<close>, the UTF-8 bytes of the text. \<open>str.lower\<close> is modelled by what it does
  to the ASCII capitals and to the Kelvin sign (U+212A, the bytes E2 84 AA), which it
  maps to \<open>k\<close>: the only character outside ASCII whose lower-case form is ASCII. All
  other characters are left as they are. So \<open>lower\<close> and \<open>str.lower\<close> agree whenever
  the result is compared with an ASCII string, as it is in the comparisons with
  \<open>".mkv"\<close>, with the extension sets the front end builds and with
  \<open>AUDIO_OK_FOR_MP4\<close>; against a policy that holds other than ASCII extensions they
  need not agree.
\<close>

type_synonym path = string

definition lower_char :: "char \<Rightarrow> char" where
  "lower_char c =
     (let n = (of_char c :: nat)
      in if 65 \<le> n \<and> n \<le> 90 then char_of (n + 32) else c)"

fun lower :: "string \<Rightarrow> string" where
  "lower (a # b # c # cs) =
     (if a = CHR 0xE2 \<and> b = CHR 0x84 \<and> c = CHR 0xAA then CHR ''k'' # lower cs
      else lower_char a # lower (b # c # cs))"
| "lower (a # cs) = lower_char a # lower cs"
| "lower [] = []"

declare lower.simps [simp del]

text \<open>
  \<open>os.path.splitext\<close> (\<open>genericpath._splitext\<close>): the extension starts at the last dot
  of the path, provided that dot comes after the last separator and the file name does
  not consist of leading dots only up to it. The separators (\<open>/\<close> on POSIX, \<open>\\\<close> and
  \<open>/\<close> on Windows) are a parameter.
\<close>

fun find_last :: "(char \<Rightarrow> bool) \<Rightarrow> string \<Rightarrow> nat \<Rightarrow> nat option \<Rightarrow> nat option" where
  "find_last P [] i acc = acc"
| "find_last P (c # cs) i acc = find_last P cs (Suc i) (if P c then Some i else acc)"

definition splitext :: "char list \<Rightarrow> path \<Rightarrow> path \<times> string" where
  "splitext seps p =
     (case find_last (\<lambda>c. c = CHR ''.'') p 0 None of
        None \<Rightarrow> (p, [])
      | Some d \<Rightarrow>
          (let start = (case find_last (\<lambda>c. c \<in> set seps) p 0 None of
                          None \<Rightarrow> 0 | Some s \<Rightarrow> Suc s)
           in if start \<le> d \<and> list_ex (\<lambda>c. c \<noteq> CHR ''.'') (take (d - start) (drop start p))
              then (take d p, drop d p)
              else (p, [])))"

definition dest_path :: "char list \<Rightarrow> path \<Rightarrow> path" where
  "dest_path seps src = fst (splitext seps src) @ ''.mp4''"

definition path_ext :: "char list \<Rightarrow> path \<Rightarrow> string" where
  "path_ext seps src = lower (snd (splitext seps src))"

section \<open>Global configuration\<close>

definition INPUT_EXTS :: "string list" where
  "INPUT_EXTS = [''.mkv'', ''.webm'', ''.ogv'']"

definition AUDIO_OK_FOR_MP4 :: "string list" where
  "AUDIO_OK_FOR_MP4 = [''aac'', ''mp3'']"

definition AUDIO_BITRATE :: string where
  "AUDIO_BITRATE = ''192k''"

section \<open>Audio probe result and the transcode decision\<close>

text \<open>
  A probed stream is a JSON object; only its \<open>codec_name\<close> key is read, and it may be
  absent (\<open>s.get("codec_name") or ""\<close>).
\<close>

record stream =
  codec_name :: "string option"

definition codec_of :: "stream \<Rightarrow> string" where
  "codec_of s = lower (case codec_name s of None \<Rightarrow> [] | Some c \<Rightarrow> c)"

text \<open>The body of \<open>should_transcode_audio_for_mkv\<close> after the probe returned \<open>streams\<close>.\<close>

fun any_incompatible :: "stream list \<Rightarrow> bool" where
  "any_incompatible [] = False"
| "any_incompatible (s # ss) =
     (if codec_of s \<notin> set AUDIO_OK_FOR_MP4 then True else any_incompatible ss)"

definition needs_audio_transcode :: "stream list \<Rightarrow> bool" where
  "needs_audio_transcode streams =
     (if streams = [] then False else any_incompatible streams)"

section \<open>Command builders\<close>

definition build_ffmpeg_cmd_remux_mkv ::
  "string \<Rightarrow> path \<Rightarrow> path \<Rightarrow> bool \<Rightarrow> bool \<Rightarrow> string list" where
  "build_ffmpeg_cmd_remux_mkv ffmpeg_bin src dst transcode_audio keep_text_subs =
     [ffmpeg_bin,
      ''-loglevel'', ''warning'',
      ''-hide_banner'',
      ''-nostats'',
      ''-y'',
      ''-fflags'', ''+genpts+discardcorrupt'',
      ''-err_detect'', ''ignore_err'',
      ''-i'', src,
      ''-map'', ''0:v?'',
      ''-map'', ''0:a?'',
      ''-c:v'', ''copy'']
     @ (if transcode_audio
        then [''-c:a'', ''aac'', ''-b:a'', AUDIO_BITRATE, ''-af'', ''aresample=async=1:first_pts=0'']
        else [''-c:a'', ''copy''])
     @ (if keep_text_subs then [''-map'', ''0:s?'', ''-c:s'', ''mov_text''] else [])
     @ [''-avoid_negative_ts'', ''make_zero'', ''-movflags'', ''+faststart'', dst]"

text \<open>
  \<open>tune\<close> is \<open>None\<close> or a string; \<open>preset or "veryslow"\<close> and \<open>if tune\<close> test
  truthiness, so the empty string behaves like \<open>None\<close>.
\<close>

definition build_ffmpeg_cmd_transcode ::
  "string \<Rightarrow> path \<Rightarrow> path \<Rightarrow> string \<Rightarrow> string \<Rightarrow> string option \<Rightarrow> bool \<Rightarrow> string list" where
  "build_ffmpeg_cmd_transcode ffmpeg_bin src dst crf preset tune lossless =
     [ffmpeg_bin,
      ''-loglevel'', ''warning'',
      ''-hide_banner'',
      ''-nostats'',
      ''-y'',
      ''-fflags'', ''+genpts+discardcorrupt'',
      ''-err_detect'', ''ignore_err'',
      ''-i'', src,
      ''-map'', ''0:v:0?'',
      ''-map'', ''0:a:0?'',
      ''-c:v'', ''libx264'']
     @ (if lossless
        then [''-preset'', (if preset = [] then ''veryslow'' else preset), ''-crf'', ''0'',
              ''-pix_fmt'', ''yuv420p'']
        else [''-preset'', preset, ''-crf'', crf, ''-pix_fmt'', ''yuv420p''])
     @ (case tune of
          None \<Rightarrow> []
        | Some t \<Rightarrow> if t = [] then [] else [''-tune'', t])
     @ [''-c:a'', ''aac'', ''-b:a'', AUDIO_BITRATE]
     @ [''-avoid_negative_ts'', ''make_zero'', ''-movflags'', ''+faststart'', dst]"

section \<open>File system, signatures and the progress store\<close>

text \<open>
  What \<open>os.stat\<close>, \<open>os.path.exists\<close>, \<open>os.path.isdir\<close> and \<open>os.path.getsize\<close> read:
  a path is absent or has a size, a modification time and a kind.
\<close>

record fstat =
  st_size :: nat
  st_mtime_ns :: int
  st_isdir :: bool

type_synonym filesys = "path \<rightharpoonup> fstat"

record fsig =
  sig_size :: nat
  sig_mtime_ns :: int

text \<open>\<open>file_sig\<close>: \<open>None\<close> stands for the \<open>FileNotFoundError\<close> of \<open>os.stat\<close>.\<close>

definition file_sig :: "filesys \<Rightarrow> path \<Rightarrow> fsig option" where
  "file_sig fs p =
     (case fs p of
        None \<Rightarrow> None
      | Some st \<Rightarrow> Some \<lparr>sig_size = st_size st, sig_mtime_ns = st_mtime_ns st\<rparr>)"

definition exists :: "filesys \<Rightarrow> path \<Rightarrow> bool" where
  "exists fs p = (fs p \<noteq> None)"

definition isdir :: "filesys \<Rightarrow> path \<Rightarrow> bool" where
  "isdir fs p = (case fs p of None \<Rightarrow> False | Some st \<Rightarrow> st_isdir st)"

text \<open>
  A progress record as \<open>mark_progress\<close> writes it: the keys \<open>dst\<close>, \<open>success\<close>,
  \<open>sig\<close> (\<open>None\<close> when the source could not be stat'ed) and \<open>updated_at\<close>. The store is
  a Python dict, which keeps insertion order; it is an association list updated in place.
\<close>

record prec =
  rec_dst :: path
  rec_success :: bool
  rec_sig :: "fsig option"
  rec_updated_at :: string

type_synonym pdb = "(path \<times> prec) list"

definition already_done :: "filesys \<Rightarrow> pdb \<Rightarrow> path \<Rightarrow> path \<Rightarrow> bool" where
  "already_done fs db src dst =
     (case map_of db src of
        None \<Rightarrow> False
      | Some r \<Rightarrow>
          if \<not> exists fs dst then False
          else (case file_sig fs src of
                  None \<Rightarrow> False
                | Some sg \<Rightarrow> rec_success r \<and> rec_sig r = Some sg))"

definition mark_progress :: "filesys \<Rightarrow> string \<Rightarrow> pdb \<Rightarrow> path \<Rightarrow> path \<Rightarrow> bool \<Rightarrow> pdb" where
  "mark_progress fs stamp db src dst ok =
     (let sg = (if exists fs src then file_sig fs src else None)
      in AList.update src
           \<lparr>rec_dst = dst, rec_success = ok, rec_sig = sg, rec_updated_at = stamp\<rparr> db)"

section \<open>The environment and the observable state\<close>

text \<open>
  Everything outside the program is a parameter: the resolved tool paths, the platform's
  path conventions, what an external process does to the file system and which exit code
  it returns (\<open>None\<close>: launching it raised), what the probes report, whether the
  recycle bin and \<open>os.remove\<close> accept a path, whether a name can be written as UTF-8
  text (it cannot when the system reports it with bytes that are no valid text, which
  Python keeps as surrogate escapes), the clock, and the stop flag. The file
  system an external process returns is arbitrary, so it also covers what other
  programs or the user do to the files while the process runs. The probes only read.
  \<open>run_tool\<close> is told how many processes were started before, so that the same command
  may behave differently when it is repeated.
\<close>

record env =
  FFMPEG_BIN :: "string option"
  FFPROBE_BIN :: "string option"
  seps :: "char list"
  os_sep :: string
  norm_path :: "path \<Rightarrow> path"
  run_tool :: "string list \<Rightarrow> nat \<Rightarrow> filesys \<Rightarrow> (int \<times> filesys) option"
  probe_json :: "string list \<Rightarrow> filesys \<Rightarrow> stream list option"
  probe_stderr :: "string list \<Rightarrow> filesys \<Rightarrow> stream list option"
  send2trash :: "path \<Rightarrow> bool"
  remove_permitted :: "path \<Rightarrow> bool"
  encodable :: "string \<Rightarrow> bool"
  now :: "nat \<Rightarrow> string"
  stop_requested :: "nat \<Rightarrow> bool"

text \<open>
  The state the claims observe: the file system as \<open>os.stat\<close> sees it, the names that
  are symbolic links without a target (absent for \<open>os.stat\<close> and \<open>os.path.exists\<close>,
  but there for \<open>os.remove\<close>), the external processes started (in order), the calls of
  the deletion primitive \<open>delete_file\<close> (path and \<open>permanent\<close>), the lines of
  \<open>failed.txt\<close>, the content of \<open>progress.json\<close> (\<open>None\<close>: missing or unparseable),
  how often \<open>save_json\<close> wrote it, and the clock.

  The text of the log and the progress signals are left out, but not the failure of a
  log write: \<open>ui_safe_log\<close> appends its message to \<open>log.txt\<close> as UTF-8, and that
  raises when the message holds a source name that is not \<open>encodable\<close>. The same
  holds for \<open>failed.txt\<close> and for the progress file. The tool path and the option
  strings are taken to be encodable, and so is every name in the store, which
  \<open>save_json\<close> could not have written otherwise; hence a write of the program can fail
  only for the name of the task at hand, and writing is otherwise taken to succeed.
  The progress file is taken to hold a JSON object, as \<open>save_json\<close> writes it; any
  other JSON value is outside the model. An exception is the value \<open>Inl Raised\<close>.
\<close>

record world =
  fs :: filesys
  dangling :: "path list"
  procs :: "string list list"
  deletions :: "(path \<times> bool) list"
  failed :: "path list"
  progress_file :: "pdb option"
  nsaves :: nat
  clock :: nat

datatype exn = Raised

type_synonym 'a result = "(exn + 'a) \<times> world"

definition load_json :: "world \<Rightarrow> pdb" where
  "load_json w = (case progress_file w of None \<Rightarrow> [] | Some d \<Rightarrow> d)"

text \<open>\<open>save_json\<close> run to completion; its single steps have a section of their own.\<close>

definition save_json :: "pdb \<Rightarrow> world \<Rightarrow> world" where
  "save_json db w = w\<lparr>progress_file := Some db, nsaves := Suc (nsaves w)\<rparr>"

definition append_failed :: "path \<Rightarrow> world \<Rightarrow> world" where
  "append_failed p w = w\<lparr>failed := failed w @ [p]\<rparr>"

definition mark_now :: "env \<Rightarrow> pdb \<Rightarrow> path \<Rightarrow> path \<Rightarrow> bool \<Rightarrow> world \<Rightarrow> pdb \<times> world" where
  "mark_now e db src dst ok w =
     (mark_progress (fs w) (now e (clock w)) db src dst ok, w\<lparr>clock := Suc (clock w)\<rparr>)"

subsection \<open>Deletion helpers\<close>

text \<open>
  \<open>try_send2trash\<close> is false when the module is missing or the call raises, which it
  does for a name that is not there at all; what was sent to the recycle bin is gone
  from the paths the program looks at. \<open>os.remove\<close> unlinks a file, and also a
  symbolic link without target; it raises for a name that is not there, for a
  directory, and when the system refuses. Every call of \<open>delete_file\<close> is recorded,
  whatever its outcome.
\<close>

definition unlink :: "path \<Rightarrow> world \<Rightarrow> world" where
  "unlink p w = w\<lparr>fs := (fs w)(p := None), dangling := removeAll p (dangling w)\<rparr>"

definition try_send2trash :: "env \<Rightarrow> path \<Rightarrow> world \<Rightarrow> bool \<times> world" where
  "try_send2trash e p w =
     (if (exists (fs w) p \<or> p \<in> set (dangling w)) \<and> send2trash e p
      then (True, unlink p w)
      else (False, w))"

definition os_remove :: "env \<Rightarrow> path \<Rightarrow> world \<Rightarrow> unit result" where
  "os_remove e p w =
     (if exists (fs w) p
      then (if \<not> isdir (fs w) p \<and> remove_permitted e p then (Inr (), unlink p w)
            else (Inl Raised, w))
      else if p \<in> set (dangling w) \<and> remove_permitted e p then (Inr (), unlink p w)
      else (Inl Raised, w))"

definition delete_file :: "env \<Rightarrow> path \<Rightarrow> bool \<Rightarrow> world \<Rightarrow> string result" where
  "delete_file e p permanent w =
     (let w0 = w\<lparr>deletions := deletions w @ [(p, permanent)]\<rparr>;
          (trashed, w1) = (if permanent then (False, w0) else try_send2trash e p w0)
      in if trashed then (Inr ''trashed'', w1)
         else (case os_remove e p w1 of
                 (Inl x, w2) \<Rightarrow> (Inl x, w2)
               | (Inr _, w2) \<Rightarrow> (Inr ''deleted'', w2)))"

subsection \<open>External processes\<close>

text \<open>
  \<open>run_ffmpeg_with_streaming\<close>: the command is started (and recorded), its effect on
  the file system and its exit code are the environment's.
\<close>

definition run_ffmpeg_with_streaming :: "env \<Rightarrow> string list \<Rightarrow> world \<Rightarrow> int result" where
  "run_ffmpeg_with_streaming e cmd w =
     (let w0 = w\<lparr>procs := procs w @ [cmd]\<rparr>
      in case run_tool e cmd (length (procs w)) (fs w) of
           None \<Rightarrow> (Inl Raised, w0)
         | Some (rc, fs') \<Rightarrow> (Inr rc, w0\<lparr>fs := fs'\<rparr>))"

text \<open>
  \<open>ffprobe("audio", path)\<close>: the inspector's JSON first, when the inspector is
  resolved; on any failure, or without inspector, the primary tool's diagnostic text.
  Both attempts swallow every exception. The decoding of the JSON and the matching of
  \<open>AUDIO_CODEC_RE\<close> are part of what the environment reports.
\<close>

definition ffprobe_cmd :: "string \<Rightarrow> path \<Rightarrow> string list" where
  "ffprobe_cmd bin p =
     [bin, ''-v'', ''error'', ''-print_format'', ''json'', ''-show_streams'', ''-show_format'', p]"

definition ffmpeg_probe_cmd :: "string \<Rightarrow> path \<Rightarrow> string list" where
  "ffmpeg_probe_cmd bin p = [bin, ''-hide_banner'', ''-v'', ''error'', ''-i'', p]"

definition ffprobe_fallback :: "env \<Rightarrow> string \<Rightarrow> path \<Rightarrow> world \<Rightarrow> stream list \<times> world" where
  "ffprobe_fallback e bin p w =
     (let cmd = ffmpeg_probe_cmd bin p
      in (case probe_stderr e cmd (fs w) of None \<Rightarrow> [] | Some ss \<Rightarrow> ss,
          w\<lparr>procs := procs w @ [cmd]\<rparr>))"

definition ffprobe :: "env \<Rightarrow> string \<Rightarrow> path \<Rightarrow> world \<Rightarrow> stream list \<times> world" where
  "ffprobe e bin p w =
     (case FFPROBE_BIN e of
        None \<Rightarrow> ffprobe_fallback e bin p w
      | Some pb \<Rightarrow>
          if pb = [] then ffprobe_fallback e bin p w
          else (let cmd = ffprobe_cmd pb p; w0 = w\<lparr>procs := procs w @ [cmd]\<rparr>
                in case probe_json e cmd (fs w) of
                     Some ss \<Rightarrow> (ss, w0)
                   | None \<Rightarrow> ffprobe_fallback e bin p w0))"

definition should_transcode_audio_for_mkv :: "env \<Rightarrow> string \<Rightarrow> path \<Rightarrow> world \<Rightarrow> bool \<times> world" where
  "should_transcode_audio_for_mkv e bin src w =
     (let (streams, w0) = ffprobe e bin src w in (needs_audio_transcode streams, w0))"

text \<open>The success check made after every conversion attempt.\<close>

definition output_ok :: "int \<Rightarrow> filesys \<Rightarrow> path \<Rightarrow> bool" where
  "output_ok rc fsys dst =
     (rc = 0 \<and> exists fsys dst \<and> (case fsys dst of None \<Rightarrow> False | Some st \<Rightarrow> 0 < st_size st))"

section \<open>The conversion worker\<close>

datatype policy = All | Exts "string list"

record opts =
  opt_crf :: string
  opt_preset :: string
  opt_tune :: string
  opt_lossless :: bool
  opt_force :: bool
  opt_dry_run :: bool
  opt_permanent :: bool
  opt_delete_after_policy :: "policy option"

text \<open>
  Both conversions begin with a log line that names the source; for a name that is not
  encodable that write raises before anything else is done.
\<close>

definition process_mkv :: "env \<Rightarrow> string \<Rightarrow> path \<Rightarrow> world \<Rightarrow> bool result" where
  "process_mkv e bin src w =
     (if \<not> encodable e src then (Inl Raised, w) else
      let dst = dest_path (seps e) src;
          (transcode_audio, w0) = should_transcode_audio_for_mkv e bin src w;
          cmd = build_ffmpeg_cmd_remux_mkv bin src dst transcode_audio False
      in case run_ffmpeg_with_streaming e cmd w0 of
           (Inl x, w1) \<Rightarrow> (Inl x, w1)
         | (Inr rc, w1) \<Rightarrow>
             if output_ok rc (fs w1) dst then (Inr True, w1)
             else (let cmd2 = build_ffmpeg_cmd_remux_mkv bin src dst True False
                   in case run_ffmpeg_with_streaming e cmd2 w1 of
                        (Inl x, w2) \<Rightarrow> (Inl x, w2)
                      | (Inr rc2, w2) \<Rightarrow>
                          if output_ok rc2 (fs w2) dst then (Inr True, w2)
                          else (Inr False, append_failed src w2)))"

definition process_transcode :: "env \<Rightarrow> opts \<Rightarrow> string \<Rightarrow> path \<Rightarrow> world \<Rightarrow> bool result" where
  "process_transcode e os bin src w =
     (if \<not> encodable e src then (Inl Raised, w) else
      let dst = dest_path (seps e) src;
          cmd = build_ffmpeg_cmd_transcode bin src dst (opt_crf os) (opt_preset os)
                  (if opt_tune os \<noteq> [] then Some (opt_tune os) else None) (opt_lossless os)
      in case run_ffmpeg_with_streaming e cmd w of
           (Inl x, w1) \<Rightarrow> (Inl x, w1)
         | (Inr rc, w1) \<Rightarrow>
             if output_ok rc (fs w1) dst then (Inr True, w1)
             else (Inr False, append_failed src w1))"

definition policy_truthy :: "policy option \<Rightarrow> bool" where
  "policy_truthy p = (case p of None \<Rightarrow> False | Some All \<Rightarrow> True | Some (Exts xs) \<Rightarrow> xs \<noteq> [])"

definition maybe_delete_source :: "env \<Rightarrow> opts \<Rightarrow> path \<Rightarrow> world \<Rightarrow> unit result" where
  "maybe_delete_source e os src w =
     (let ext = path_ext (seps e) src;
          allowed = (case opt_delete_after_policy os of
                       None \<Rightarrow> False
                     | Some All \<Rightarrow> True
                     | Some (Exts xs) \<Rightarrow> ext \<in> set xs)
      in if \<not> allowed then (Inr (), w)
         else if opt_dry_run os then (Inr (), w)
         else (case delete_file e src (opt_permanent os) w of
                 (Inl x, w1) \<Rightarrow> (Inl x, w1)
               | (Inr _, w1) \<Rightarrow> (Inr (), w1)))"

text \<open>The \<open># Process file\<close> step of the loop body: the dispatch on the extension.\<close>

definition convert_file :: "env \<Rightarrow> opts \<Rightarrow> string \<Rightarrow> path \<Rightarrow> world \<Rightarrow> bool result" where
  "convert_file e os bin src w =
     (if path_ext (seps e) src = ''.mkv'' then process_mkv e bin src w
      else process_transcode e os bin src w)"

text \<open>
  The loop variables of \<open>ConverterWorker.run\<close>: the store in memory, the counters of
  the summary line, and the state outside; \<open>died\<close> says that an exception left
  \<open>run\<close>, which ends the worker thread.
\<close>

record run_state =
  db :: pdb
  success :: nat
  skipped :: nat
  idx :: nat
  died :: bool
  wld :: world

text \<open>
  The \<open>except Exception\<close> branch of the loop body. Its first statement logs the source
  name; when that write raises, the exception leaves the handler and \<open>run\<close> with
  nothing recorded.
\<close>

definition crash :: "env \<Rightarrow> path \<Rightarrow> run_state \<Rightarrow> run_state" where
  "crash e src st =
     (if \<not> encodable e src then st\<lparr>died := True\<rparr> else
      let w1 = append_failed src (wld st);
          dst = dest_path (seps e) src;
          (db1, w2) = mark_now e (db st) src dst False w1
      in st\<lparr>db := db1, wld := save_json db1 w2\<rparr>)"

text \<open>
  One iteration of the loop, after the stop flag was found clear. On the skip branch
  the source has a record in the store, so its name is one \<open>save_json\<close> wrote and the
  log line of that branch can be written.
\<close>

definition run_task :: "env \<Rightarrow> opts \<Rightarrow> string \<Rightarrow> run_state \<Rightarrow> path \<Rightarrow> run_state" where
  "run_task e os bin st0 src =
     (let st = st0\<lparr>idx := Suc (idx st0)\<rparr>;
          dst = dest_path (seps e) src
      in if \<not> opt_force os \<and> already_done (fs (wld st)) (db st) src dst
         then st\<lparr>skipped := Suc (skipped st)\<rparr>
         else (case convert_file e os bin src (wld st) of
                 (Inl _, w1) \<Rightarrow> crash e src (st\<lparr>wld := w1\<rparr>)
               | (Inr ok, w1) \<Rightarrow>
                   (let (db1, w2) = mark_now e (db st) src dst ok w1;
                        st1 = st\<lparr>db := db1, wld := save_json db1 w2\<rparr>
                    in if ok
                       then (let st2 = st1\<lparr>success := Suc (success st1)\<rparr>
                             in if policy_truthy (opt_delete_after_policy os)
                                then (case maybe_delete_source e os src (wld st2) of
                                        (Inl _, w3) \<Rightarrow> crash e src (st2\<lparr>wld := w3\<rparr>)
                                      | (Inr _, w3) \<Rightarrow> st2\<lparr>wld := w3\<rparr>)
                                else st2)
                       else st1)))"

fun run_loop :: "env \<Rightarrow> opts \<Rightarrow> string \<Rightarrow> run_state \<Rightarrow> path list \<Rightarrow> run_state" where
  "run_loop e os bin st [] = st"
| "run_loop e os bin st (src # rest) =
     (if died st \<or> stop_requested e (idx st) then st
      else run_loop e os bin (run_task e os bin st src) rest)"

definition run :: "env \<Rightarrow> opts \<Rightarrow> path list \<Rightarrow> world \<Rightarrow> run_state" where
  "run e os tasks w =
     (let st = \<lparr>db = load_json w, success = 0, skipped = 0, idx = 0, died = False, wld = w\<rparr>
      in case FFMPEG_BIN e of
           None \<Rightarrow> st
         | Some bin \<Rightarrow> if bin = [] then st else run_loop e os bin st tasks)"

text \<open>Whether the delete-after policy of the options covers an extension.\<close>

definition delete_after_covers :: "opts \<Rightarrow> string \<Rightarrow> bool" where
  "delete_after_covers os ext =
     (case opt_delete_after_policy os of
        None \<Rightarrow> False
      | Some All \<Rightarrow> True
      | Some (Exts xs) \<Rightarrow> ext \<in> set xs)"

text \<open>
  The loop state right after a successful conversion was recorded and saved, before the
  optional delete-after step.
\<close>

definition after_convert :: "env \<Rightarrow> run_state \<Rightarrow> path \<Rightarrow> world \<Rightarrow> run_state" where
  "after_convert e st src w1 =
     st\<lparr>idx := Suc (idx st),
        db := mark_progress (fs w1) (now e (clock w1)) (db st) src (dest_path (seps e) src) True,
        success := Suc (success st),
        wld := save_json (mark_progress (fs w1) (now e (clock w1)) (db st) src (dest_path (seps e) src) True)
                 (w1\<lparr>clock := Suc (clock w1)\<rparr>)\<rparr>"

section \<open>Cleanup from the progress store\<close>

text \<open>The nested helper \<open>is_within\<close>: equal to a root, or below a root that is a directory.\<close>

fun within_roots :: "env \<Rightarrow> filesys \<Rightarrow> path \<Rightarrow> path list \<Rightarrow> bool" where
  "within_roots e fsys p_norm [] = False"
| "within_roots e fsys p_norm (r # rs) =
     (let r_norm = norm_path e r
      in if p_norm = r_norm then True
         else if isdir fsys r_norm \<and> prefix (r_norm @ os_sep e) p_norm then True
         else within_roots e fsys p_norm rs)"

definition is_within :: "env \<Rightarrow> filesys \<Rightarrow> path \<Rightarrow> path list \<Rightarrow> bool" where
  "is_within e fsys p roots =
     (if roots = [] then True else within_roots e fsys (norm_path e p) roots)"

text \<open>The counters of the cleanup summary.\<close>

record tally =
  total_candidates :: nat
  removed :: nat
  mismatched :: nat
  missing_dst :: nat
  missing_src :: nat
  skipped_scope :: nat
  skipped_not_success :: nat
  skipped_ext :: nat

definition tally0 :: tally where
  "tally0 = \<lparr>total_candidates = 0, removed = 0, mismatched = 0, missing_dst = 0,
             missing_src = 0, skipped_scope = 0, skipped_not_success = 0, skipped_ext = 0\<rparr>"

definition policy_covers :: "policy \<Rightarrow> string \<Rightarrow> bool" where
  "policy_covers pol ext = (case pol of All \<Rightarrow> True | Exts xs \<Rightarrow> ext \<in> set xs)"

definition rec_dst_or_default :: "env \<Rightarrow> path \<Rightarrow> prec \<Rightarrow> path" where
  "rec_dst_or_default e src r = (if rec_dst r = [] then dest_path (seps e) src else rec_dst r)"

text \<open>The body of the loop over \<open>db.items()\<close>, with its \<open>try\<close>/\<open>except\<close>.\<close>

definition cleanup_item ::
  "env \<Rightarrow> policy \<Rightarrow> path list \<Rightarrow> bool \<Rightarrow> bool \<Rightarrow> world \<times> tally \<Rightarrow> path \<times> prec \<Rightarrow> world \<times> tally" where
  "cleanup_item e pol scope_paths perm dry wt item =
     (let (w, t) = wt; (src, r) = item;
          ext = path_ext (seps e) src
      in if \<not> policy_covers pol ext then (w, t\<lparr>skipped_ext := Suc (skipped_ext t)\<rparr>)
         else if scope_paths \<noteq> [] \<and> \<not> is_within e (fs w) src scope_paths
         then (w, t\<lparr>skipped_scope := Suc (skipped_scope t)\<rparr>)
         else (let t1 = t\<lparr>total_candidates := Suc (total_candidates t)\<rparr>
               in if \<not> rec_success r
                  then (w, t1\<lparr>skipped_not_success := Suc (skipped_not_success t1)\<rparr>)
                  else (let dst = rec_dst_or_default e src r
                        in if \<not> exists (fs w) dst
                           then (w, t1\<lparr>missing_dst := Suc (missing_dst t1)\<rparr>)
                           else if \<not> exists (fs w) src
                           then (w, t1\<lparr>missing_src := Suc (missing_src t1)\<rparr>)
                           else (case file_sig (fs w) src of
                                   None \<Rightarrow> (w, t1\<lparr>missing_src := Suc (missing_src t1)\<rparr>)
                                 | Some current_sig \<Rightarrow>
                                     if rec_sig r = None \<or> rec_sig r \<noteq> Some current_sig
                                     then (w, t1\<lparr>mismatched := Suc (mismatched t1)\<rparr>)
                                     else if dry then (w, t1)
                                     else (case delete_file e src perm w of
                                             (Inl _, w1) \<Rightarrow> (w1, t1)
                                           | (Inr _, w1) \<Rightarrow>
                                               (w1, t1\<lparr>removed := Suc (removed t1)\<rparr>))))))"

definition cleanup_from_progress ::
  "env \<Rightarrow> policy \<Rightarrow> path list \<Rightarrow> bool \<Rightarrow> bool \<Rightarrow> world \<Rightarrow> world \<times> tally" where
  "cleanup_from_progress e pol scope_paths perm dry w =
     (let d = load_json w
      in if d = [] then (w, tally0)
         else foldl (cleanup_item e pol scope_paths perm dry) (w, tally0) d)"

text \<open>
  The checks of the cleanup pass on one record, in one file system: what the pass
  requires before it calls the deletion primitive.
\<close>

definition cleanup_checks :: "env \<Rightarrow> policy \<Rightarrow> path list \<Rightarrow> filesys \<Rightarrow> path \<Rightarrow> prec \<Rightarrow> bool" where
  "cleanup_checks e pol scope_paths fsys src r =
     (policy_covers pol (path_ext (seps e) src)
      \<and> (scope_paths = [] \<or> is_within e fsys src scope_paths)
      \<and> rec_success r
      \<and> exists fsys (rec_dst_or_default e src r)
      \<and> exists fsys src
      \<and> rec_sig r \<noteq> None
      \<and> rec_sig r = file_sig fsys src)"

section \<open>The steps of \<open>save_json\<close>\<close>

text \<open>
  \<open>save_json\<close> opens \<open>path + ".tmp"\<close> for writing (which truncates it), lets
  \<open>json.dump\<close> write the serialisation chunk by chunk, closes the file and calls
  \<open>os.replace(tmp, path)\<close>. The contents of files are a map from paths to text; each
  primitive is one step, \<open>os.replace\<close> being a single step as the operating system
  guarantees. An interrupted save is a save of which only the first \<open>k\<close> steps ran.
\<close>

type_synonym contents = "path \<rightharpoonup> string"

datatype fop = OpenW path | WriteChunk path string | CloseF path | Replace path path

fun fop_step :: "contents \<Rightarrow> fop \<Rightarrow> contents" where
  "fop_step c (OpenW p) = c(p \<mapsto> [])"
| "fop_step c (WriteChunk p s) = c(p \<mapsto> (case c p of None \<Rightarrow> s | Some old \<Rightarrow> old @ s))"
| "fop_step c (CloseF p) = c"
| "fop_step c (Replace a b) = (case c a of None \<Rightarrow> c | Some x \<Rightarrow> (c(a := None))(b \<mapsto> x))"

definition save_json_steps :: "path \<Rightarrow> string list \<Rightarrow> fop list" where
  "save_json_steps p chunks =
     (let tmp = p @ ''.tmp''
      in [OpenW tmp] @ map (WriteChunk tmp) chunks @ [CloseF tmp, Replace tmp p])"

definition save_json_interrupted :: "nat \<Rightarrow> path \<Rightarrow> string list \<Rightarrow> contents \<Rightarrow> contents" where
  "save_json_interrupted k p chunks c = foldl fop_step c (take k (save_json_steps p chunks))"

text \<open>A step that writes nothing but the temporary file.\<close>

definition only_tmp :: "path \<Rightarrow> fop \<Rightarrow> bool" where
  "only_tmp tmp x = (case x of OpenW q \<Rightarrow> q = tmp | WriteChunk q s \<Rightarrow> q = tmp
                      | CloseF q \<Rightarrow> True | Replace a b \<Rightarrow> False)"

section \<open>A concrete environment\<close>

text \<open>
  One file, one signature, an environment in which the tool exits with 0 and writes its
  last argument (the destination), and a world built from a file system and a stored
  progress file: the inputs on which the theorems below are instantiated.
\<close>

definition example_file :: fstat where
  "example_file = \<lparr>st_size = 10, st_mtime_ns = 5, st_isdir = False\<rparr>"

definition example_sig :: fsig where
  "example_sig = \<lparr>sig_size = 10, sig_mtime_ns = 5\<rparr>"

definition example_env :: env where
  "example_env =
     \<lparr>FFMPEG_BIN = Some ''ffmpeg'', FFPROBE_BIN = None, seps = ''/'', os_sep = ''/'',
      norm_path = (\<lambda>p. p),
      run_tool = (\<lambda>cmd n fsys. Some (0, fsys(last cmd \<mapsto> example_file))),
      probe_json = (\<lambda>cmd fsys. None),
      probe_stderr = (\<lambda>cmd fsys. Some [\<lparr>codec_name = Some ''aac''\<rparr>]),
      send2trash = (\<lambda>p. False),
      remove_permitted = (\<lambda>p. True),
      encodable = (\<lambda>p. True),
      now = (\<lambda>n. ''t''),
      stop_requested = (\<lambda>n. False)\<rparr>"

definition example_world :: "filesys \<Rightarrow> pdb option \<Rightarrow> world" where
  "example_world fsys pf =
     \<lparr>fs = fsys, dangling = [], procs = [], deletions = [], failed = [], progress_file = pf,
      nsaves = 0, clock = 0\<rparr>"

definition example_rec :: "fsig option \<Rightarrow> prec" where
  "example_rec sg = \<lparr>rec_dst = ''a.mp4'', rec_success = True, rec_sig = sg, rec_updated_at = ''t''\<rparr>"

definition example_opts :: opts where
  "example_opts =
     \<lparr>opt_crf = ''18'', opt_preset = ''slow'', opt_tune = [], opt_lossless = False,
      opt_force = False, opt_dry_run = False, opt_permanent = False,
      opt_delete_after_policy = None\<rparr>"

text \<open>Source and destination present, the source recorded as converted and unchanged.\<close>

definition done_world :: world where
  "done_world =
     example_world [''a.mkv'' \<mapsto> example_file, ''a.mp4'' \<mapsto> example_file]
       (Some [(''a.mkv'', example_rec (Some example_sig))])"

definition done_state :: run_state where
  "done_state =
     \<lparr>db = load_json done_world, success = 0, skipped = 0, idx = 0, died = False,
      wld = done_world\<rparr>"

text \<open>Options with a delete-after policy, with and without dry run.\<close>

definition delete_opts :: opts where
  "delete_opts = example_opts\<lparr>opt_delete_after_policy := Some (Exts [''.mkv''])\<rparr>"

definition dry_opts :: opts where
  "dry_opts = delete_opts\<lparr>opt_dry_run := True\<rparr>"

text \<open>A source that was never converted, and the loop state of a run that starts there.\<close>

definition fresh_world :: world where
  "fresh_world = example_world [''a.mkv'' \<mapsto> example_file] None"

definition fresh_state :: run_state where
  "fresh_state =
     \<lparr>db = load_json fresh_world, success = 0, skipped = 0, idx = 0, died = False,
      wld = fresh_world\<rparr>"

text \<open>
  A record written while the source was missing: marked successful, destination
  present, no signature, the source still missing; and the same with the source back.
\<close>

definition gone_world :: world where
  "gone_world =
     example_world [''a.mp4'' \<mapsto> example_file] (Some [(''a.mkv'', example_rec None)])"

definition back_world :: world where
  "back_world =
     example_world [''a.mkv'' \<mapsto> example_file, ''a.mp4'' \<mapsto> example_file]
       (Some [(''a.mkv'', example_rec None)])"

text \<open>
  An environment in which the source disappears while the tool runs (the tool still exits
  with 0 and writes the destination), and one in which the second process started
  (the primary remux, after the probe) fails.
\<close>

definition vanish_env :: env where
  "vanish_env =
     example_env\<lparr>run_tool :=
       (\<lambda>cmd n fsys. Some (0, (fsys(last cmd \<mapsto> example_file))(''a.mkv'' := None)))\<rparr>"

definition retry_env :: env where
  "retry_env =
     example_env\<lparr>run_tool :=
       (\<lambda>cmd n fsys. if n = 1 then Some (1, fsys) else Some (0, fsys(last cmd \<mapsto> example_file)))\<rparr>"

text \<open>An environment in which the tool always exits with 1 and writes nothing.\<close>

definition fail_env :: env where
  "fail_env = example_env\<lparr>run_tool := (\<lambda>cmd n fsys. Some (1, fsys))\<rparr>"

text \<open>
  Environments in which no process can be launched, in which the source name cannot be
  written as text, and in which neither the recycle bin nor \<open>os.remove\<close> accepts a file.
\<close>

definition nolaunch_env :: env where
  "nolaunch_env =
     example_env\<lparr>run_tool := (\<lambda>cmd n fsys. None), probe_stderr := (\<lambda>cmd fsys. None)\<rparr>"

definition odd_name_env :: env where
  "odd_name_env = example_env\<lparr>encodable := (\<lambda>p. False)\<rparr>"

definition locked_env :: env where
  "locked_env = example_env\<lparr>remove_permitted := (\<lambda>p. False)\<rparr>"

section \<open>Properties of the audio decision and of the command builders\<close>

text \<open>The Kelvin sign in an extension is lowered to \<open>k\<close>, as by \<open>str.lower\<close>.\<close>

lemma lower_kelvin:
  "path_ext ''/'' (''a.M'' @ [CHR 0xE2, CHR 0x84, CHR 0xAA] @ ''V'') = ''.mkv''"
  by code_simp

lemma any_incompatible_iff:
  "any_incompatible ss = (\<exists>s \<in> set ss. codec_of s \<notin> set AUDIO_OK_FOR_MP4)"
  by (induction ss) auto

text \<open>
  Claim C8. The needs-audio-transcode predicate is true exactly when the probed stream
  list is non-empty and some stream's codec name, lower-cased (an absent name counting
  as the empty string), is not one of \<open>aac\<close>, \<open>mp3\<close>; on the empty list it is false.
\<close>

theorem needs_audio_transcode_iff:
  "needs_audio_transcode streams =
     (streams \<noteq> [] \<and>
      (\<exists>s \<in> set streams.
         lower (case codec_name s of None \<Rightarrow> [] | Some c \<Rightarrow> c) \<notin> {''aac'', ''mp3''}))
   \<and> \<not> needs_audio_transcode []"
  by (simp add: needs_audio_transcode_def any_incompatible_iff codec_of_def AUDIO_OK_FOR_MP4_def)

theorem needs_audio_transcode_iff_witness:
  "needs_audio_transcode [\<lparr>codec_name = Some ''AAC''\<rparr>, \<lparr>codec_name = Some ''opus''\<rparr>]
   \<and> \<not> needs_audio_transcode [\<lparr>codec_name = Some ''AAC''\<rparr>, \<lparr>codec_name = Some ''Mp3''\<rparr>]
   \<and> \<not> needs_audio_transcode []"
proof -
  have l1: "lower ''AAC'' = ''aac''" by code_simp
  have l2: "lower ''opus'' = ''opus''" by code_simp
  have l3: "lower ''Mp3'' = ''mp3''" by code_simp
  show ?thesis
    using needs_audio_transcode_iff [of "[\<lparr>codec_name = Some ''AAC''\<rparr>, \<lparr>codec_name = Some ''opus''\<rparr>]"]
      needs_audio_transcode_iff [of "[\<lparr>codec_name = Some ''AAC''\<rparr>, \<lparr>codec_name = Some ''Mp3''\<rparr>]"]
    by (simp add: l1 l2 l3)
qed

text \<open>
  Claim C9. With \<open>lossless\<close> set, the transcode command does not depend on the
  configured constant-rate-factor and carries \<open>-crf 0\<close> (arguments 20 and 21, after
  \<open>-preset\<close> and its value); without it, the same positions carry exactly the configured
  preset and constant-rate-factor.
\<close>

theorem transcode_cmd_quality:
  "build_ffmpeg_cmd_transcode bin src dst crf preset tune True
     = build_ffmpeg_cmd_transcode bin src dst crf' preset tune True
   \<and> take 6 (drop 18 (build_ffmpeg_cmd_transcode bin src dst crf preset tune True))
     = [''-preset'', (if preset = [] then ''veryslow'' else preset), ''-crf'', ''0'',
        ''-pix_fmt'', ''yuv420p'']
   \<and> take 6 (drop 18 (build_ffmpeg_cmd_transcode bin src dst crf preset tune False))
     = [''-preset'', preset, ''-crf'', crf, ''-pix_fmt'', ''yuv420p'']
   \<and> sublist [''-crf'', ''0''] (build_ffmpeg_cmd_transcode bin src dst crf preset tune True)
   \<and> sublist [''-preset'', preset, ''-crf'', crf]
        (build_ffmpeg_cmd_transcode bin src dst crf preset tune False)"
proof -
  have a: "sublist [''-crf'', ''0''] (build_ffmpeg_cmd_transcode bin src dst crf preset tune True)"
    unfolding sublist_def build_ffmpeg_cmd_transcode_def
    by (rule exI [of _ "[bin, ''-loglevel'', ''warning'', ''-hide_banner'', ''-nostats'', ''-y'',
          ''-fflags'', ''+genpts+discardcorrupt'', ''-err_detect'', ''ignore_err'', ''-i'', src,
          ''-map'', ''0:v:0?'', ''-map'', ''0:a:0?'', ''-c:v'', ''libx264'', ''-preset'',
          (if preset = [] then ''veryslow'' else preset)]"]) simp
  have b: "sublist [''-preset'', preset, ''-crf'', crf]
        (build_ffmpeg_cmd_transcode bin src dst crf preset tune False)"
    unfolding sublist_def build_ffmpeg_cmd_transcode_def
    by (rule exI [of _ "[bin, ''-loglevel'', ''warning'', ''-hide_banner'', ''-nostats'', ''-y'',
          ''-fflags'', ''+genpts+discardcorrupt'', ''-err_detect'', ''ignore_err'', ''-i'', src,
          ''-map'', ''0:v:0?'', ''-map'', ''0:a:0?'', ''-c:v'', ''libx264'']"]) simp
  show ?thesis
    using a b by (simp add: build_ffmpeg_cmd_transcode_def)
qed

theorem transcode_cmd_quality_witness:
  "build_ffmpeg_cmd_transcode ''ffmpeg'' ''b.webm'' ''b.mp4'' ''18'' ''slow'' None True
     = build_ffmpeg_cmd_transcode ''ffmpeg'' ''b.webm'' ''b.mp4'' ''23'' ''slow'' None True
   \<and> take 6 (drop 18 (build_ffmpeg_cmd_transcode ''ffmpeg'' ''b.webm'' ''b.mp4'' ''18'' ''slow'' None True))
     = [''-preset'', ''slow'', ''-crf'', ''0'', ''-pix_fmt'', ''yuv420p'']
   \<and> take 6 (drop 18 (build_ffmpeg_cmd_transcode ''ffmpeg'' ''b.webm'' ''b.mp4'' ''18'' ''slow'' None False))
     = [''-preset'', ''slow'', ''-crf'', ''18'', ''-pix_fmt'', ''yuv420p'']"
proof -
  have p: "(if ''slow'' = [] then ''veryslow'' else ''slow'') = ''slow''" by simp
  show ?thesis
    using transcode_cmd_quality [of "''ffmpeg''" "''b.webm''" "''b.mp4''" "''18''" "''slow''" None "''23''"]
    unfolding p by blast
qed

section \<open>Interrupting \<open>save_json\<close>\<close>

lemma tmp_neq: "p @ ''.tmp'' \<noteq> p"
proof
  assume "p @ ''.tmp'' = p"
  then have "length (p @ ''.tmp'') = length p" by simp
  then show False by simp
qed

lemma write_chunks_tmp:
  "c tmp = Some old \<Longrightarrow>
   foldl fop_step c (map (WriteChunk tmp) xs) = c(tmp \<mapsto> old @ concat xs)"
proof (induction xs arbitrary: c old)
  case Nil
  then show ?case by (simp add: fun_upd_idem)
next
  case (Cons x xs)
  have "foldl fop_step c (map (WriteChunk tmp) (x # xs))
          = foldl fop_step (c(tmp \<mapsto> old @ x)) (map (WriteChunk tmp) xs)"
    using Cons.prems by simp
  also have "\<dots> = (c(tmp \<mapsto> old @ x))(tmp \<mapsto> (old @ x) @ concat xs)"
    by (rule Cons.IH) simp
  also have "\<dots> = c(tmp \<mapsto> old @ concat (x # xs))"
    by simp
  finally show ?case .
qed

lemma only_tmp_preserves:
  "list_all (only_tmp tmp) ops \<Longrightarrow> q \<noteq> tmp \<Longrightarrow> foldl fop_step c ops q = c q"
proof (induction ops arbitrary: c)
  case Nil
  then show ?case by simp
next
  case (Cons x ops)
  then have "fop_step c x q = c q"
    by (cases x) (auto simp: only_tmp_def)
  with Cons show ?case by simp
qed

lemma save_json_steps_length: "length (save_json_steps p chunks) = length chunks + 3"
  by (simp add: save_json_steps_def Let_def)

lemma save_json_steps_butlast:
  "butlast (save_json_steps p chunks) =
     OpenW (p @ ''.tmp'') # map (WriteChunk (p @ ''.tmp'')) chunks @ [CloseF (p @ ''.tmp'')]"
  by (simp add: save_json_steps_def Let_def butlast_append)

lemma save_json_before_rename:
  assumes "k < length (save_json_steps p chunks)"
  shows "save_json_interrupted k p chunks c p = c p"
proof -
  let ?tmp = "p @ ''.tmp''"
  have "take k (save_json_steps p chunks) = take k (butlast (save_json_steps p chunks))"
    using assms by (simp add: take_butlast)
  moreover have "list_all (only_tmp ?tmp) (butlast (save_json_steps p chunks))"
    by (simp add: save_json_steps_butlast only_tmp_def list_all_iff)
  then have "list_all (only_tmp ?tmp) (take k (butlast (save_json_steps p chunks)))"
    by (auto simp: list_all_iff dest: in_set_takeD)
  ultimately show ?thesis
    using only_tmp_preserves [of ?tmp _ p c] tmp_neq [of p]
    by (simp add: save_json_interrupted_def)
qed

lemma save_json_complete:
  "foldl fop_step c (save_json_steps p chunks) = (c(p @ ''.tmp'' := None))(p \<mapsto> concat chunks)"
proof -
  let ?tmp = "p @ ''.tmp''"
  have "foldl fop_step (c(?tmp \<mapsto> [])) (map (WriteChunk ?tmp) chunks)
          = (c(?tmp \<mapsto> []))(?tmp \<mapsto> [] @ concat chunks)"
    by (rule write_chunks_tmp) simp
  then show ?thesis
    by (simp add: save_json_steps_def Let_def)
qed

text \<open>
  Claim C7. Whatever the store and its serialisation, a save writes to the sibling
  \<open>.tmp\<close> path and ends with the rename onto the canonical path. Stopped after any
  number \<open>k\<close> of its steps, the canonical file holds its previous content when the
  rename has not run, and the complete new serialisation when it has: never a part of it.
\<close>

theorem save_json_atomic:
  "save_json_interrupted k p chunks c p =
     (if k < length (save_json_steps p chunks) then c p else Some (concat chunks))
   \<and> last (save_json_steps p chunks) = Replace (p @ ''.tmp'') p
   \<and> list_all (only_tmp (p @ ''.tmp'')) (butlast (save_json_steps p chunks))"
proof -
  have a: "save_json_interrupted k p chunks c p =
     (if k < length (save_json_steps p chunks) then c p else Some (concat chunks))"
  proof (cases "k < length (save_json_steps p chunks)")
    case True
    then show ?thesis by (simp add: save_json_before_rename)
  next
    case False
    then have "take k (save_json_steps p chunks) = save_json_steps p chunks" by simp
    then show ?thesis using False
      by (simp add: save_json_interrupted_def save_json_complete)
  qed
  have b: "last (save_json_steps p chunks) = Replace (p @ ''.tmp'') p"
    by (simp add: save_json_steps_def Let_def)
  have c: "list_all (only_tmp (p @ ''.tmp'')) (butlast (save_json_steps p chunks))"
    by (simp add: save_json_steps_butlast only_tmp_def list_all_iff)
  from a b c show ?thesis by blast
qed

theorem save_json_atomic_witness:
  "save_json_interrupted 2 ''progress.json'' [''{'', ''}''] [''progress.json'' \<mapsto> ''old''] ''progress.json''
     = Some ''old''
   \<and> save_json_interrupted 4 ''progress.json'' [''{'', ''}''] [''progress.json'' \<mapsto> ''old''] ''progress.json''
     = Some ''old''
   \<and> save_json_interrupted 5 ''progress.json'' [''{'', ''}''] [''progress.json'' \<mapsto> ''old''] ''progress.json''
     = Some ''{}''"
  using save_json_atomic [of 2 "''progress.json''" "[''{'', ''}'']" "[''progress.json'' \<mapsto> ''old'']"]
    save_json_atomic [of 4 "''progress.json''" "[''{'', ''}'']" "[''progress.json'' \<mapsto> ''old'']"]
    save_json_atomic [of 5 "''progress.json''" "[''{'', ''}'']" "[''progress.json'' \<mapsto> ''old'']"]
  by (simp add: save_json_steps_length)

section \<open>Frame and step lemmas\<close>

lemma delete_file_deletions:
  "deletions (snd (delete_file e p perm w)) = deletions w @ [(p, perm)]"
  by (auto simp: delete_file_def try_send2trash_def os_remove_def unlink_def Let_def
      split: prod.splits sum.splits if_splits)

lemma delete_file_fs_le: "fs (snd (delete_file e p perm w)) \<subseteq>\<^sub>m fs w"
  by (auto simp: delete_file_def try_send2trash_def os_remove_def unlink_def Let_def map_le_def
      split: prod.splits sum.splits if_splits)

lemma delete_file_other:
  "procs (snd (delete_file e p perm w)) = procs w
   \<and> failed (snd (delete_file e p perm w)) = failed w
   \<and> progress_file (snd (delete_file e p perm w)) = progress_file w
   \<and> nsaves (snd (delete_file e p perm w)) = nsaves w
   \<and> clock (snd (delete_file e p perm w)) = clock w"
  by (auto simp: delete_file_def try_send2trash_def os_remove_def unlink_def Let_def
      split: prod.splits sum.splits if_splits)

lemma delete_file_fst_cong:
  "fs w = fs w' \<Longrightarrow> dangling w = dangling w' \<Longrightarrow>
   fst (delete_file e p perm w) = fst (delete_file e p perm w')"
  by (auto simp: delete_file_def try_send2trash_def os_remove_def unlink_def Let_def
      split: prod.splits sum.splits if_splits)

lemma exists_file_sig: "exists fsys p \<Longrightarrow> \<exists>sg. file_sig fsys p = Some sg"
  by (auto simp: exists_def file_sig_def)

lemma cleanup_item_deletions:
  "deletions (fst (cleanup_item e pol sc perm dry (w, t) (src, r))) =
     deletions w @ (if cleanup_checks e pol sc (fs w) src r \<and> \<not> dry then [(src, perm)] else [])"
proof (cases "cleanup_checks e pol sc (fs w) src r \<and> \<not> dry")
  case True
  then obtain sg where sg: "file_sig (fs w) src = Some sg" "rec_sig r = Some sg"
    by (auto simp: cleanup_checks_def dest: exists_file_sig)
  obtain x w1 where d: "delete_file e src perm w = (x, w1)" by (cases "delete_file e src perm w")
  then have "deletions w1 = deletions w @ [(src, perm)]"
    using delete_file_deletions [of e src perm w] by simp
  with True sg d show ?thesis
    by (auto simp: cleanup_item_def cleanup_checks_def Let_def split: sum.splits)
next
  case False
  then show ?thesis
    by (auto simp: cleanup_item_def cleanup_checks_def Let_def file_sig_def exists_def
        split: sum.splits option.splits prod.splits)
qed

lemma cleanup_item_fs_le:
  "fs (fst (cleanup_item e pol sc perm dry (w, t) (src, r))) \<subseteq>\<^sub>m fs w"
proof -
  have "fs (snd (delete_file e src perm w)) \<subseteq>\<^sub>m fs w" by (rule delete_file_fs_le)
  then show ?thesis
    by (auto simp: cleanup_item_def Let_def split: sum.splits option.splits prod.splits)
qed

lemma exists_mono: "f1 \<subseteq>\<^sub>m f2 \<Longrightarrow> exists f1 p \<Longrightarrow> exists f2 p"
  by (auto simp: exists_def map_le_def dom_def)

lemma file_sig_mono: "f1 \<subseteq>\<^sub>m f2 \<Longrightarrow> exists f1 p \<Longrightarrow> file_sig f2 p = file_sig f1 p"
  by (auto simp: exists_def map_le_def dom_def file_sig_def)

lemma isdir_mono: "f1 \<subseteq>\<^sub>m f2 \<Longrightarrow> isdir f1 p \<Longrightarrow> isdir f2 p"
  by (auto simp: isdir_def map_le_def dom_def split: option.splits)

lemma within_roots_mono:
  "f1 \<subseteq>\<^sub>m f2 \<Longrightarrow> within_roots e f1 p rs \<Longrightarrow> within_roots e f2 p rs"
  by (induction rs) (auto simp: Let_def dest: isdir_mono split: if_splits)

lemma is_within_mono: "f1 \<subseteq>\<^sub>m f2 \<Longrightarrow> is_within e f1 p rs \<Longrightarrow> is_within e f2 p rs"
  by (auto simp: is_within_def dest: within_roots_mono split: if_splits)

lemma cleanup_checks_mono:
  assumes le: "f1 \<subseteq>\<^sub>m f2" and c: "cleanup_checks e pol sc f1 src r"
  shows "cleanup_checks e pol sc f2 src r"
proof -
  from c have ex: "exists f1 src" and exd: "exists f1 (rec_dst_or_default e src r)"
    and pc: "policy_covers pol (path_ext (seps e) src)" and su: "rec_success r"
    and sg: "rec_sig r \<noteq> None" "rec_sig r = file_sig f1 src"
    and wi: "sc = [] \<or> is_within e f1 src sc"
    unfolding cleanup_checks_def by blast+
  have "file_sig f2 src = file_sig f1 src" using le ex by (rule file_sig_mono)
  with sg have sg2: "rec_sig r = file_sig f2 src" by simp
  have ex2: "exists f2 src" using le ex by (rule exists_mono)
  have exd2: "exists f2 (rec_dst_or_default e src r)" using le exd by (rule exists_mono)
  have wi2: "sc = [] \<or> is_within e f2 src sc" using wi le by (blast intro: is_within_mono)
  show ?thesis
    unfolding cleanup_checks_def
    using pc wi2 su exd2 ex2 sg(1) sg2 by blast
qed

lemma cleanup_loop_fs_le:
  "fs (fst (foldl (cleanup_item e pol sc perm dry) wt d)) \<subseteq>\<^sub>m fs (fst wt)"
proof (induction d rule: rev_induct)
  case Nil
  then show ?case by simp
next
  case (snoc x xs)
  obtain w t where wt: "foldl (cleanup_item e pol sc perm dry) wt xs = (w, t)"
    by (cases "foldl (cleanup_item e pol sc perm dry) wt xs")
  obtain src r where x: "x = (src, r)" by (cases x)
  have a: "fs (fst (cleanup_item e pol sc perm dry (w, t) (src, r))) \<subseteq>\<^sub>m fs w"
    by (rule cleanup_item_fs_le)
  have b: "fs w \<subseteq>\<^sub>m fs (fst wt)" using snoc wt by simp
  have "foldl (cleanup_item e pol sc perm dry) wt (xs @ [x])
          = cleanup_item e pol sc perm dry (w, t) (src, r)"
    using wt x by simp
  then show ?case using map_le_trans [OF a b] by simp
qed

lemma cleanup_loop_deletions:
  "\<exists>new. deletions (fst (foldl (cleanup_item e pol sc perm dry) wt d)) = deletions (fst wt) @ new
     \<and> (\<forall>x \<in> set new. \<exists>pre r post. d = pre @ (fst x, r) # post
           \<and> cleanup_checks e pol sc (fs (fst (foldl (cleanup_item e pol sc perm dry) wt pre))) (fst x) r
           \<and> \<not> dry \<and> snd x = perm)"
proof (induction d rule: rev_induct)
  case Nil
  then show ?case by simp
next
  case (snoc x xs)
  let ?f = "cleanup_item e pol sc perm dry"
  obtain w t where wt: "foldl ?f wt xs = (w, t)" by (cases "foldl ?f wt xs")
  obtain src r where x: "x = (src, r)" by (cases x)
  from snoc obtain new where new: "deletions w = deletions (fst wt) @ new"
    and old: "\<forall>y \<in> set new. \<exists>pre r post. xs = pre @ (fst y, r) # post
           \<and> cleanup_checks e pol sc (fs (fst (foldl ?f wt pre))) (fst y) r
           \<and> \<not> dry \<and> snd y = perm"
    using wt by auto
  let ?add = "if cleanup_checks e pol sc (fs w) src r \<and> \<not> dry then [(src, perm)] else []"
  have step: "deletions (fst (foldl ?f wt (xs @ [x]))) = deletions (fst wt) @ (new @ ?add)"
    using wt x new cleanup_item_deletions [of e pol sc perm dry w t src r] by simp
  have "\<exists>pre r post. xs @ [x] = pre @ (fst y, r) # post
           \<and> cleanup_checks e pol sc (fs (fst (foldl ?f wt pre))) (fst y) r
           \<and> \<not> dry \<and> snd y = perm" if y: "y \<in> set (new @ ?add)" for y
  proof (cases "y \<in> set new")
    case True
    with old obtain pre r' post where "xs = pre @ (fst y, r') # post"
      "cleanup_checks e pol sc (fs (fst (foldl ?f wt pre))) (fst y) r'" "\<not> dry" "snd y = perm"
      by blast
    then have "xs @ [x] = pre @ (fst y, r') # (post @ [x])" by simp
    with \<open>cleanup_checks e pol sc (fs (fst (foldl ?f wt pre))) (fst y) r'\<close> \<open>\<not> dry\<close> \<open>snd y = perm\<close>
    show ?thesis by (intro exI [of _ pre] exI [of _ r'] exI [of _ "post @ [x]"]) simp
  next
    case False
    with y have c: "cleanup_checks e pol sc (fs w) src r" "\<not> dry" "y = (src, perm)"
      by (auto split: if_splits)
    have "xs @ [x] = xs @ (fst y, r) # []" using x c by simp
    moreover have "cleanup_checks e pol sc (fs (fst (foldl ?f wt xs))) (fst y) r"
      using wt c by simp
    ultimately show ?thesis using c
      by (intro exI [of _ xs] exI [of _ r] exI [of _ "[]"]) simp
  qed
  then have "\<forall>y \<in> set (new @ ?add). \<exists>pre r post. xs @ [x] = pre @ (fst y, r) # post
           \<and> cleanup_checks e pol sc (fs (fst (foldl ?f wt pre))) (fst y) r
           \<and> \<not> dry \<and> snd y = perm" by (rule ballI)
  with step show ?case by (intro exI [of _ "new @ ?add"] conjI)
qed

lemma run_ffmpeg_frame:
  "deletions (snd (run_ffmpeg_with_streaming e cmd w)) = deletions w"
  "failed (snd (run_ffmpeg_with_streaming e cmd w)) = failed w"
  "progress_file (snd (run_ffmpeg_with_streaming e cmd w)) = progress_file w"
  "nsaves (snd (run_ffmpeg_with_streaming e cmd w)) = nsaves w"
  "clock (snd (run_ffmpeg_with_streaming e cmd w)) = clock w"
  by (auto simp: run_ffmpeg_with_streaming_def Let_def split: option.splits prod.splits)

lemma ffprobe_fallback_frame:
  "deletions (snd (ffprobe_fallback e bin p w)) = deletions w"
  "failed (snd (ffprobe_fallback e bin p w)) = failed w"
  "progress_file (snd (ffprobe_fallback e bin p w)) = progress_file w"
  "nsaves (snd (ffprobe_fallback e bin p w)) = nsaves w"
  "clock (snd (ffprobe_fallback e bin p w)) = clock w"
  "fs (snd (ffprobe_fallback e bin p w)) = fs w"
  by (simp_all add: ffprobe_fallback_def Let_def)

lemma ffprobe_frame:
  "deletions (snd (ffprobe e bin p w)) = deletions w"
  "failed (snd (ffprobe e bin p w)) = failed w"
  "progress_file (snd (ffprobe e bin p w)) = progress_file w"
  "nsaves (snd (ffprobe e bin p w)) = nsaves w"
  "clock (snd (ffprobe e bin p w)) = clock w"
  "fs (snd (ffprobe e bin p w)) = fs w"
  by (auto simp: ffprobe_def Let_def ffprobe_fallback_frame split: option.splits)

lemma should_transcode_frame:
  "deletions (snd (should_transcode_audio_for_mkv e bin p w)) = deletions w"
  "failed (snd (should_transcode_audio_for_mkv e bin p w)) = failed w"
  "progress_file (snd (should_transcode_audio_for_mkv e bin p w)) = progress_file w"
  "nsaves (snd (should_transcode_audio_for_mkv e bin p w)) = nsaves w"
  "clock (snd (should_transcode_audio_for_mkv e bin p w)) = clock w"
  "fs (snd (should_transcode_audio_for_mkv e bin p w)) = fs w"
  using ffprobe_frame [of e bin p w]
  by (auto simp: should_transcode_audio_for_mkv_def split: prod.splits)

lemma process_transcode_frame:
  "deletions (snd (process_transcode e os bin src w)) = deletions w"
  "progress_file (snd (process_transcode e os bin src w)) = progress_file w"
  "nsaves (snd (process_transcode e os bin src w)) = nsaves w"
  "clock (snd (process_transcode e os bin src w)) = clock w"
proof -
  let ?cmd = "build_ffmpeg_cmd_transcode bin src (dest_path (seps e) src) (opt_crf os) (opt_preset os)
                  (if opt_tune os \<noteq> [] then Some (opt_tune os) else None) (opt_lossless os)"
  obtain x w1 where r: "run_ffmpeg_with_streaming e ?cmd w = (x, w1)"
    by (cases "run_ffmpeg_with_streaming e ?cmd w")
  from run_ffmpeg_frame [of e ?cmd w] r
  have f: "deletions w1 = deletions w" "progress_file w1 = progress_file w"
    "nsaves w1 = nsaves w" "clock w1 = clock w" by simp_all
  show "deletions (snd (process_transcode e os bin src w)) = deletions w"
    "progress_file (snd (process_transcode e os bin src w)) = progress_file w"
    "nsaves (snd (process_transcode e os bin src w)) = nsaves w"
    "clock (snd (process_transcode e os bin src w)) = clock w"
    using r f by (auto simp: process_transcode_def Let_def append_failed_def split: sum.splits)
qed

lemma process_mkv_frame:
  "deletions (snd (process_mkv e bin src w)) = deletions w"
  "progress_file (snd (process_mkv e bin src w)) = progress_file w"
  "nsaves (snd (process_mkv e bin src w)) = nsaves w"
  "clock (snd (process_mkv e bin src w)) = clock w"
proof -
  obtain ta w0 where s: "should_transcode_audio_for_mkv e bin src w = (ta, w0)"
    by (cases "should_transcode_audio_for_mkv e bin src w")
  from should_transcode_frame [of e bin src w] s
  have f0: "deletions w0 = deletions w" "progress_file w0 = progress_file w"
    "nsaves w0 = nsaves w" "clock w0 = clock w" by simp_all
  let ?dst = "dest_path (seps e) src"
  let ?cmd = "build_ffmpeg_cmd_remux_mkv bin src ?dst ta False"
  let ?cmd2 = "build_ffmpeg_cmd_remux_mkv bin src ?dst True False"
  obtain x w1 where r1: "run_ffmpeg_with_streaming e ?cmd w0 = (x, w1)"
    by (cases "run_ffmpeg_with_streaming e ?cmd w0")
  from run_ffmpeg_frame [of e ?cmd w0] r1 f0
  have f1: "deletions w1 = deletions w" "progress_file w1 = progress_file w"
    "nsaves w1 = nsaves w" "clock w1 = clock w" by simp_all
  obtain y w2 where r2: "run_ffmpeg_with_streaming e ?cmd2 w1 = (y, w2)"
    by (cases "run_ffmpeg_with_streaming e ?cmd2 w1")
  from run_ffmpeg_frame [of e ?cmd2 w1] r2 f1
  have f2: "deletions w2 = deletions w" "progress_file w2 = progress_file w"
    "nsaves w2 = nsaves w" "clock w2 = clock w" by simp_all
  show "deletions (snd (process_mkv e bin src w)) = deletions w"
    "progress_file (snd (process_mkv e bin src w)) = progress_file w"
    "nsaves (snd (process_mkv e bin src w)) = nsaves w"
    "clock (snd (process_mkv e bin src w)) = clock w"
    using s r1 r2 f1 f2
    by (auto simp: process_mkv_def Let_def append_failed_def split: sum.splits)
qed

lemma convert_file_frame:
  "deletions (snd (convert_file e os bin src w)) = deletions w"
  "progress_file (snd (convert_file e os bin src w)) = progress_file w"
  "nsaves (snd (convert_file e os bin src w)) = nsaves w"
  "clock (snd (convert_file e os bin src w)) = clock w"
  by (simp_all add: convert_file_def process_mkv_frame process_transcode_frame)

lemma crash_frame:
  "deletions (wld (crash e src st)) = deletions (wld st)"
  "fs (wld (crash e src st)) = fs (wld st)"
  "procs (wld (crash e src st)) = procs (wld st)"
  "success (crash e src st) = success st"
  "skipped (crash e src st) = skipped st"
  by (simp_all add: crash_def Let_def mark_now_def save_json_def append_failed_def)

lemma crash_recorded:
  assumes "encodable e src"
  shows "progress_file (wld (crash e src st)) = Some (db (crash e src st))"
    and "nsaves (wld (crash e src st)) = Suc (nsaves (wld st))"
    and "died (crash e src st) = died st"
    and "failed (wld (crash e src st)) = failed (wld st) @ [src]"
    and "db (crash e src st) =
     mark_progress (fs (wld st)) (now e (clock (wld st))) (db st) src (dest_path (seps e) src) False"
  using assms
  by (simp_all add: crash_def Let_def mark_now_def save_json_def append_failed_def)

lemma crash_died: "\<not> encodable e src \<Longrightarrow> crash e src st = st\<lparr>died := True\<rparr>"
  by (simp add: crash_def)

lemma maybe_delete_source_deletions:
  "deletions (snd (maybe_delete_source e os src w)) =
     deletions w @ (if delete_after_covers os (path_ext (seps e) src) \<and> \<not> opt_dry_run os
                    then [(src, opt_permanent os)] else [])"
proof -
  obtain x w1 where d: "delete_file e src (opt_permanent os) w = (x, w1)"
    by (cases "delete_file e src (opt_permanent os) w")
  with delete_file_deletions [of e src "opt_permanent os" w]
  have "deletions w1 = deletions w @ [(src, opt_permanent os)]" by simp
  with d show ?thesis
    by (auto simp: maybe_delete_source_def delete_after_covers_def Let_def
        split: option.splits policy.splits sum.splits)
qed

lemma maybe_delete_source_frame:
  "procs (snd (maybe_delete_source e os src w)) = procs w"
  "failed (snd (maybe_delete_source e os src w)) = failed w"
  "progress_file (snd (maybe_delete_source e os src w)) = progress_file w"
  "nsaves (snd (maybe_delete_source e os src w)) = nsaves w"
  "clock (snd (maybe_delete_source e os src w)) = clock w"
proof -
  obtain x w1 where d: "delete_file e src (opt_permanent os) w = (x, w1)"
    by (cases "delete_file e src (opt_permanent os) w")
  with delete_file_other [of e src "opt_permanent os" w]
  have "procs w1 = procs w" "failed w1 = failed w" "progress_file w1 = progress_file w"
    "nsaves w1 = nsaves w" "clock w1 = clock w" by simp_all
  with d show "procs (snd (maybe_delete_source e os src w)) = procs w"
  "failed (snd (maybe_delete_source e os src w)) = failed w"
  "progress_file (snd (maybe_delete_source e os src w)) = progress_file w"
  "nsaves (snd (maybe_delete_source e os src w)) = nsaves w"
  "clock (snd (maybe_delete_source e os src w)) = clock w"
    by (auto simp: maybe_delete_source_def Let_def split: option.splits policy.splits sum.splits)
qed

lemma maybe_delete_source_dry:
  "opt_dry_run os \<Longrightarrow> maybe_delete_source e os src w = (Inr (), w)"
  by (simp add: maybe_delete_source_def Let_def)

lemma run_task_skip:
  assumes "\<not> opt_force os" "already_done (fs (wld st)) (db st) src (dest_path (seps e) src)"
  shows "run_task e os bin st src = st\<lparr>idx := Suc (idx st), skipped := Suc (skipped st)\<rparr>"
  using assms by (simp add: run_task_def Let_def)

lemma run_task_raise:
  assumes "\<not> (\<not> opt_force os \<and> already_done (fs (wld st)) (db st) src (dest_path (seps e) src))"
    and "convert_file e os bin src (wld st) = (Inl x, w1)"
  shows "run_task e os bin st src = crash e src (st\<lparr>idx := Suc (idx st), wld := w1\<rparr>)"
  using assms by (auto simp: run_task_def Let_def)

lemma run_task_false:
  assumes "\<not> (\<not> opt_force os \<and> already_done (fs (wld st)) (db st) src (dest_path (seps e) src))"
    and "convert_file e os bin src (wld st) = (Inr False, w1)"
  shows "run_task e os bin st src =
     st\<lparr>idx := Suc (idx st),
        db := mark_progress (fs w1) (now e (clock w1)) (db st) src (dest_path (seps e) src) False,
        wld := save_json (mark_progress (fs w1) (now e (clock w1)) (db st) src (dest_path (seps e) src) False)
                 (w1\<lparr>clock := Suc (clock w1)\<rparr>)\<rparr>"
  using assms by (auto simp: run_task_def Let_def mark_now_def)


lemma run_task_true:
  assumes ns: "\<not> (\<not> opt_force os \<and> already_done (fs (wld st)) (db st) src (dest_path (seps e) src))"
    and cv: "convert_file e os bin src (wld st) = (Inr True, w1)"
  shows "run_task e os bin st src =
     (let st2 = after_convert e st src w1
      in if policy_truthy (opt_delete_after_policy os)
         then (case maybe_delete_source e os src (wld st2) of
                 (Inl _, w3) \<Rightarrow> crash e src (st2\<lparr>wld := w3\<rparr>)
               | (Inr _, w3) \<Rightarrow> st2\<lparr>wld := w3\<rparr>)
         else st2)"
proof -
  let ?st2 = "after_convert e st src w1"
  have w2: "wld ?st2 = save_json (mark_progress (fs w1) (now e (clock w1)) (db st) src
                 (dest_path (seps e) src) True) (w1\<lparr>clock := Suc (clock w1)\<rparr>)"
    by (simp add: after_convert_def)
  obtain y w3 where m: "maybe_delete_source e os src (wld ?st2) = (y, w3)"
    by (cases "maybe_delete_source e os src (wld ?st2)")
  show ?thesis
  proof (cases y)
    case (Inl a)
    with ns cv m show ?thesis
      unfolding run_task_def Let_def
      by (auto simp add: mark_now_def after_convert_def)
  next
    case (Inr b)
    with ns cv m show ?thesis
      unfolding run_task_def Let_def
      by (auto simp add: mark_now_def after_convert_def)
  qed
qed

section \<open>The skip decision\<close>

text \<open>
  Claim C1. A task whose source has a progress record with \<open>success\<close> true, whose
  destination exists and whose current signature equals the recorded one is, without
  \<open>force\<close>, counted as skipped by the loop body; no external process is started, and
  neither the world nor the store changes.
\<close>

theorem already_done_task_is_skipped:
  assumes "\<not> opt_force os"
    and "map_of (db st) src = Some r"
    and "rec_success r"
    and "exists (fs (wld st)) (dest_path (seps e) src)"
    and "file_sig (fs (wld st)) src = Some sg"
    and "rec_sig r = Some sg"
  shows "skipped (run_task e os bin st src) = Suc (skipped st)
       \<and> success (run_task e os bin st src) = success st
       \<and> procs (wld (run_task e os bin st src)) = procs (wld st)
       \<and> wld (run_task e os bin st src) = wld st
       \<and> db (run_task e os bin st src) = db st"
proof -
  have "already_done (fs (wld st)) (db st) src (dest_path (seps e) src)"
    using assms by (simp add: already_done_def)
  with assms(1) show ?thesis by (simp add: run_task_skip)
qed

theorem already_done_task_is_skipped_witness:
  "skipped (run_task example_env example_opts ''ffmpeg'' done_state ''a.mkv'') = 1
   \<and> success (run_task example_env example_opts ''ffmpeg'' done_state ''a.mkv'') = 0
   \<and> procs (wld (run_task example_env example_opts ''ffmpeg'' done_state ''a.mkv'')) = []"
proof -
  have 1: "\<not> opt_force example_opts" by code_simp
  have 2: "map_of (db done_state) ''a.mkv'' = Some (example_rec (Some example_sig))" by code_simp
  have 3: "rec_success (example_rec (Some example_sig))" by code_simp
  have 4: "exists (fs (wld done_state)) (dest_path (seps example_env) ''a.mkv'')" by code_simp
  have 5: "file_sig (fs (wld done_state)) ''a.mkv'' = Some example_sig" by code_simp
  have 6: "rec_sig (example_rec (Some example_sig)) = Some example_sig" by code_simp
  have 7: "skipped done_state = 0" "success done_state = 0" "procs (wld done_state) = []"
    by code_simp+
  from already_done_task_is_skipped [OF 1 2 3 4 5 6, of "''ffmpeg''"] 7
  show ?thesis by simp
qed

section \<open>Safety of the cleanup pass\<close>

text \<open>
  Claim C2. Every call of the deletion primitive made by a cleanup pass is for a source
  with a record in the store that passed all checks, in the file system as it was when
  the record was reached and also as it was when the pass started: the policy covers
  the extension, the source is within the scope (or the scope is empty), \<open>success\<close> is
  true, the recorded destination exists, the source exists, and the recorded signature
  is present and equals the current one. The pass was not a dry run.
\<close>

theorem cleanup_deletes_only_checked:
  assumes "x \<in> set (drop (length (deletions w))
                   (deletions (fst (cleanup_from_progress e pol sc perm dry w))))"
  shows "\<exists>pre r post.
           load_json w = pre @ (fst x, r) # post
         \<and> cleanup_checks e pol sc
              (fs (fst (foldl (cleanup_item e pol sc perm dry) (w, tally0) pre))) (fst x) r
         \<and> cleanup_checks e pol sc (fs w) (fst x) r
         \<and> \<not> dry \<and> snd x = perm"
proof -
  let ?f = "cleanup_item e pol sc perm dry"
  let ?d = "load_json w"
  have ne: "?d \<noteq> []"
  proof
    assume "?d = []"
    then have "cleanup_from_progress e pol sc perm dry w = (w, tally0)"
      by (simp add: cleanup_from_progress_def)
    with assms show False by simp
  qed
  then have cf: "cleanup_from_progress e pol sc perm dry w = foldl ?f (w, tally0) ?d"
    by (simp add: cleanup_from_progress_def Let_def)
  from cleanup_loop_deletions [of e pol sc perm dry "(w, tally0)" ?d]
  obtain new where new: "deletions (fst (foldl ?f (w, tally0) ?d)) = deletions w @ new"
    and all: "\<forall>y \<in> set new. \<exists>pre r post. ?d = pre @ (fst y, r) # post
           \<and> cleanup_checks e pol sc (fs (fst (foldl ?f (w, tally0) pre))) (fst y) r
           \<and> \<not> dry \<and> snd y = perm"
    by auto
  from assms cf new have "x \<in> set new" by simp
  with all obtain pre r post where p: "?d = pre @ (fst x, r) # post"
    and c: "cleanup_checks e pol sc (fs (fst (foldl ?f (w, tally0) pre))) (fst x) r"
    and o: "\<not> dry" "snd x = perm"
    by blast
  have "fs (fst (foldl ?f (w, tally0) pre)) \<subseteq>\<^sub>m fs (fst (w, tally0))"
    by (rule cleanup_loop_fs_le)
  then have "fs (fst (foldl ?f (w, tally0) pre)) \<subseteq>\<^sub>m fs w" by simp
  from cleanup_checks_mono [OF this c] have c0: "cleanup_checks e pol sc (fs w) (fst x) r" .
  from p c c0 o show ?thesis
    by (intro exI [of _ pre] exI [of _ r] exI [of _ post]) simp
qed

theorem cleanup_deletes_only_checked_witness:
  "(''a.mkv'', False) \<in> set (drop (length (deletions done_world))
       (deletions (fst (cleanup_from_progress example_env All [] False False done_world))))
   \<and> (\<exists>r. (''a.mkv'', r) \<in> set (load_json done_world)
          \<and> cleanup_checks example_env All [] (fs done_world) ''a.mkv'' r)"
proof -
  have h: "(''a.mkv'', False) \<in> set (drop (length (deletions done_world))
       (deletions (fst (cleanup_from_progress example_env All [] False False done_world))))"
    by code_simp
  from cleanup_deletes_only_checked [OF h]
  obtain pre r post where "load_json done_world = pre @ (''a.mkv'', r) # post"
    "cleanup_checks example_env All [] (fs done_world) ''a.mkv'' r"
    by auto
  then have "(''a.mkv'', r) \<in> set (load_json done_world)
          \<and> cleanup_checks example_env All [] (fs done_world) ''a.mkv'' r" by simp
  then have "\<exists>r. (''a.mkv'', r) \<in> set (load_json done_world)
          \<and> cleanup_checks example_env All [] (fs done_world) ''a.mkv'' r" ..
  with h show ?thesis by simp
qed

section \<open>Dry runs and the delete-after step\<close>

lemma cleanup_item_dry:
  "fst (cleanup_item e pol sc perm True (w, t) (src, r)) = w"
  "removed (snd (cleanup_item e pol sc perm True (w, t) (src, r))) = removed t"
  by (auto simp: cleanup_item_def Let_def split: option.splits)

lemma cleanup_loop_dry:
  "fst (foldl (cleanup_item e pol sc perm True) wt d) = fst wt
   \<and> removed (snd (foldl (cleanup_item e pol sc perm True) wt d)) = removed (snd wt)"
proof (induction d rule: rev_induct)
  case Nil
  then show ?case by simp
next
  case (snoc x xs)
  obtain w t where wt: "foldl (cleanup_item e pol sc perm True) wt xs = (w, t)"
    by (cases "foldl (cleanup_item e pol sc perm True) wt xs")
  obtain src r where x: "x = (src, r)" by (cases x)
  from snoc wt x cleanup_item_dry [of e pol sc perm w t src r] show ?case by simp
qed

lemma cleanup_dry:
  "fst (cleanup_from_progress e pol sc perm True w) = w"
  "removed (snd (cleanup_from_progress e pol sc perm True w)) = 0"
  using cleanup_loop_dry [of e pol sc perm "(w, tally0)" "load_json w"]
  by (simp_all add: cleanup_from_progress_def Let_def tally0_def)

lemma not_truthy_not_covers:
  "\<not> policy_truthy (opt_delete_after_policy os) \<Longrightarrow> \<not> delete_after_covers os ext"
  by (auto simp: policy_truthy_def delete_after_covers_def split: option.splits policy.splits)

lemma save_json_frame:
  "deletions (save_json d w) = deletions w"
  "fs (save_json d w) = fs w"
  "procs (save_json d w) = procs w"
  "failed (save_json d w) = failed w"
  "progress_file (save_json d w) = Some d"
  "nsaves (save_json d w) = Suc (nsaves w)"
  by (simp_all add: save_json_def)

lemma after_convert_frame:
  "deletions (wld (after_convert e st src w1)) = deletions w1"
  "fs (wld (after_convert e st src w1)) = fs w1"
  "procs (wld (after_convert e st src w1)) = procs w1"
  "failed (wld (after_convert e st src w1)) = failed w1"
  "progress_file (wld (after_convert e st src w1)) = Some (db (after_convert e st src w1))"
  "nsaves (wld (after_convert e st src w1)) = Suc (nsaves w1)"
  "success (after_convert e st src w1) = Suc (success st)"
  "skipped (after_convert e st src w1) = skipped st"
  "db (after_convert e st src w1) =
     mark_progress (fs w1) (now e (clock w1)) (db st) src (dest_path (seps e) src) True"
  by (simp_all add: after_convert_def save_json_def)

lemma run_task_deletions:
  "deletions (wld (run_task e os bin st src)) =
     deletions (wld st) @
       (if \<not> (\<not> opt_force os \<and> already_done (fs (wld st)) (db st) src (dest_path (seps e) src))
           \<and> fst (convert_file e os bin src (wld st)) = Inr True
           \<and> delete_after_covers os (path_ext (seps e) src) \<and> \<not> opt_dry_run os
        then [(src, opt_permanent os)] else [])"
proof (cases "\<not> opt_force os \<and> already_done (fs (wld st)) (db st) src (dest_path (seps e) src)")
  case True
  then show ?thesis by (simp add: run_task_skip)
next
  case ns: False
  obtain res w1 where cv: "convert_file e os bin src (wld st) = (res, w1)"
    by (cases "convert_file e os bin src (wld st)")
  from convert_file_frame(1) [of e os bin src "wld st"] cv
  have d1: "deletions w1 = deletions (wld st)" by simp
  show ?thesis
  proof (cases res)
    case (Inl x)
    with ns cv d1 show ?thesis
      by (simp add: run_task_raise [OF ns] crash_frame)
  next
    case (Inr ok)
    show ?thesis
    proof (cases ok)
      case False
      with Inr ns cv d1 show ?thesis
        by (simp add: run_task_false [OF ns] save_json_frame)
    next
      case True
      let ?st2 = "after_convert e st src w1"
      have rt: "run_task e os bin st src =
        (if policy_truthy (opt_delete_after_policy os)
         then (case maybe_delete_source e os src (wld ?st2) of
                 (Inl _, w3) \<Rightarrow> crash e src (?st2\<lparr>wld := w3\<rparr>)
               | (Inr _, w3) \<Rightarrow> ?st2\<lparr>wld := w3\<rparr>)
         else ?st2)"
        using run_task_true [OF ns, of bin w1] cv Inr True by (simp add: Let_def)
      show ?thesis
      proof (cases "policy_truthy (opt_delete_after_policy os)")
        case pf: False
        with rt d1 cv Inr True ns not_truthy_not_covers [OF pf] show ?thesis
          by (simp add: after_convert_frame)
      next
        case pt: True
        obtain y w3 where m: "maybe_delete_source e os src (wld ?st2) = (y, w3)"
          by (cases "maybe_delete_source e os src (wld ?st2)")
        from maybe_delete_source_deletions [of e os src "wld ?st2"] m
        have d3: "deletions w3 = deletions (wld st) @
            (if delete_after_covers os (path_ext (seps e) src) \<and> \<not> opt_dry_run os
             then [(src, opt_permanent os)] else [])"
          by (simp add: after_convert_frame d1)
        have "deletions (wld (run_task e os bin st src)) = deletions w3"
          using rt pt m by (cases y) (simp_all add: crash_frame)
        with d3 cv Inr True ns show ?thesis by simp
      qed
    qed
  qed
qed

lemma run_loop_dry:
  "opt_dry_run os \<Longrightarrow> deletions (wld (run_loop e os bin st tasks)) = deletions (wld st)"
  by (induction tasks arbitrary: st) (simp_all add: run_task_deletions)

lemma run_dry: "opt_dry_run os \<Longrightarrow> deletions (wld (run e os tasks w)) = deletions w"
  by (simp add: run_def Let_def run_loop_dry split: option.splits)

text \<open>
  Claim C3. With \<open>dry_run\<close> set, the deletion primitive is never called: a cleanup
  pass leaves the list of its calls and the file system as they were and counts nothing
  as removed, however many records are eligible; the delete-after step returns at once;
  and a whole conversion run makes no call either.
\<close>

theorem dry_run_never_deletes:
  "deletions (fst (cleanup_from_progress e pol sc perm True w)) = deletions w
   \<and> fs (fst (cleanup_from_progress e pol sc perm True w)) = fs w
   \<and> removed (snd (cleanup_from_progress e pol sc perm True w)) = 0
   \<and> (opt_dry_run os \<longrightarrow> maybe_delete_source e os src w = (Inr (), w))
   \<and> (opt_dry_run os \<longrightarrow> deletions (wld (run e os tasks w)) = deletions w)"
  by (simp add: cleanup_dry maybe_delete_source_dry run_dry)


theorem dry_run_never_deletes_witness:
  "cleanup_checks example_env All [] (fs done_world) ''a.mkv'' (example_rec (Some example_sig))
   \<and> deletions (fst (cleanup_from_progress example_env All [] False False done_world))
       = [(''a.mkv'', False)]
   \<and> deletions (fst (cleanup_from_progress example_env All [] False True done_world)) = []
   \<and> deletions (wld (run example_env delete_opts [''a.mkv''] fresh_world)) = [(''a.mkv'', False)]
   \<and> deletions (wld (run example_env dry_opts [''a.mkv''] fresh_world)) = []
   \<and> deletions (snd (maybe_delete_source example_env dry_opts ''a.mkv'' fresh_world)) = []"
proof -
  have 1: "cleanup_checks example_env All [] (fs done_world) ''a.mkv'' (example_rec (Some example_sig))"
    by code_simp
  have 2: "deletions (fst (cleanup_from_progress example_env All [] False False done_world))
       = [(''a.mkv'', False)]" by code_simp
  have 3: "deletions (wld (run example_env delete_opts [''a.mkv''] fresh_world)) = [(''a.mkv'', False)]"
    by code_simp
  have 4: "opt_dry_run dry_opts" by code_simp
  have 5: "deletions done_world = []" "deletions fresh_world = []" by code_simp+
  from dry_run_never_deletes [of example_env All "[]" False done_world dry_opts "''a.mkv''" "[''a.mkv'']"]
  have a: "deletions (fst (cleanup_from_progress example_env All [] False True done_world)) = []"
    using 5 by simp
  from dry_run_never_deletes [of example_env All "[]" False fresh_world dry_opts "''a.mkv''" "[''a.mkv'']"] 4 5
  have b: "deletions (wld (run example_env dry_opts [''a.mkv''] fresh_world)) = []"
    "deletions (snd (maybe_delete_source example_env dry_opts ''a.mkv'' fresh_world)) = []"
    by simp_all
  from 1 2 3 a b show ?thesis by simp
qed

section \<open>Records without a signature\<close>

lemma already_done_no_sig:
  "map_of d src = Some r \<Longrightarrow> rec_sig r = None \<Longrightarrow> \<not> already_done fsys d src dst"
  by (simp add: already_done_def split: option.splits)

lemma cleanup_item_no_sig:
  assumes "rec_sig r = None"
  shows "cleanup_item e pol sc perm dry (w, t) (src, r) =
     (w,
      if \<not> policy_covers pol (path_ext (seps e) src)
      then t\<lparr>skipped_ext := Suc (skipped_ext t)\<rparr>
      else if sc \<noteq> [] \<and> \<not> is_within e (fs w) src sc
      then t\<lparr>skipped_scope := Suc (skipped_scope t)\<rparr>
      else if \<not> rec_success r
      then t\<lparr>total_candidates := Suc (total_candidates t),
             skipped_not_success := Suc (skipped_not_success t)\<rparr>
      else if \<not> exists (fs w) (rec_dst_or_default e src r)
      then t\<lparr>total_candidates := Suc (total_candidates t), missing_dst := Suc (missing_dst t)\<rparr>
      else if \<not> exists (fs w) src
      then t\<lparr>total_candidates := Suc (total_candidates t), missing_src := Suc (missing_src t)\<rparr>
      else t\<lparr>total_candidates := Suc (total_candidates t), mismatched := Suc (mismatched t)\<rparr>)"
  using assms
  by (auto simp: cleanup_item_def Let_def exists_def file_sig_def split: option.splits)

text \<open>
  Claim C10, as amended. For a record whose stored signature is absent, in a store with
  one record per source: the already-done check is false in every file system; no
  cleanup pass calls the deletion primitive for its source; and the step of the pass on
  the record leaves the world as it is and counts the record under the first check
  that fails, in the order policy, scope, \<open>success\<close>, destination exists, source
  exists: as changed exactly when all of these pass, and never as removed.
\<close>

theorem absent_signature_never_trusted:
  assumes "distinct (map fst (load_json w))"
    and "map_of (load_json w) src = Some r"
    and "rec_sig r = None"
  shows "\<not> already_done fsys (load_json w) src dst
       \<and> (src, b) \<notin> set (drop (length (deletions w))
                          (deletions (fst (cleanup_from_progress e pol sc perm dry w))))
       \<and> cleanup_item e pol sc perm dry (w1, t) (src, r) =
           (w1,
            if \<not> policy_covers pol (path_ext (seps e) src)
            then t\<lparr>skipped_ext := Suc (skipped_ext t)\<rparr>
            else if sc \<noteq> [] \<and> \<not> is_within e (fs w1) src sc
            then t\<lparr>skipped_scope := Suc (skipped_scope t)\<rparr>
            else if \<not> rec_success r
            then t\<lparr>total_candidates := Suc (total_candidates t),
                   skipped_not_success := Suc (skipped_not_success t)\<rparr>
            else if \<not> exists (fs w1) (rec_dst_or_default e src r)
            then t\<lparr>total_candidates := Suc (total_candidates t),
                   missing_dst := Suc (missing_dst t)\<rparr>
            else if \<not> exists (fs w1) src
            then t\<lparr>total_candidates := Suc (total_candidates t),
                   missing_src := Suc (missing_src t)\<rparr>
            else t\<lparr>total_candidates := Suc (total_candidates t),
                   mismatched := Suc (mismatched t)\<rparr>)"
proof -
  let ?f = "cleanup_item e pol sc perm dry"
  let ?d = "load_json w"
  have nd: "(src, b) \<notin> set (drop (length (deletions w))
                          (deletions (fst (cleanup_from_progress e pol sc perm dry w))))"
  proof
    assume in_new: "(src, b) \<in> set (drop (length (deletions w))
                          (deletions (fst (cleanup_from_progress e pol sc perm dry w))))"
    have cf: "fst (cleanup_from_progress e pol sc perm dry w) = fst (foldl ?f (w, tally0) ?d)"
      by (simp add: cleanup_from_progress_def Let_def)
    from cleanup_loop_deletions [of e pol sc perm dry "(w, tally0)" ?d]
    obtain new where new: "deletions (fst (foldl ?f (w, tally0) ?d)) = deletions w @ new"
      and all: "\<forall>y \<in> set new. \<exists>pre r post. ?d = pre @ (fst y, r) # post
           \<and> cleanup_checks e pol sc (fs (fst (foldl ?f (w, tally0) pre))) (fst y) r
           \<and> \<not> dry \<and> snd y = perm"
      by auto
    from in_new cf new have "(src, b) \<in> set new" by simp
    with all obtain pre r' post where p: "?d = pre @ (src, r') # post"
      and c: "cleanup_checks e pol sc (fs (fst (foldl ?f (w, tally0) pre))) src r'"
      by force
    from p have "(src, r') \<in> set ?d" by simp
    with assms(1) have "map_of ?d src = Some r'" by (rule map_of_is_SomeI)
    with assms(2) have "r' = r" by simp
    with c assms(3) show False by (simp add: cleanup_checks_def)
  qed
  from nd already_done_no_sig [OF assms(2,3)] cleanup_item_no_sig [OF assms(3)]
  show ?thesis by simp
qed

theorem absent_signature_never_trusted_witness:
  "\<not> already_done (fs back_world) (load_json back_world) ''a.mkv'' ''a.mp4''
   \<and> (''a.mkv'', False) \<notin> set (drop (length (deletions back_world))
          (deletions (fst (cleanup_from_progress example_env All [] False False back_world))))
   \<and> mismatched (snd (cleanup_item example_env All [] False False (back_world, tally0)
                        (''a.mkv'', example_rec None))) = 1
   \<and> missing_src (snd (cleanup_item example_env All [] False False (gone_world, tally0)
                        (''a.mkv'', example_rec None))) = 1
   \<and> mismatched (snd (cleanup_item example_env All [] False False (gone_world, tally0)
                        (''a.mkv'', example_rec None))) = 0"
proof -
  have 1: "distinct (map fst (load_json back_world))" by code_simp
  have 2: "map_of (load_json back_world) ''a.mkv'' = Some (example_rec None)" by code_simp
  have 3: "rec_sig (example_rec None) = None" by code_simp
  have 4: "policy_covers All (path_ext (seps example_env) ''a.mkv'')"
    "rec_success (example_rec None)"
    "exists (fs back_world) (rec_dst_or_default example_env ''a.mkv'' (example_rec None))"
    "exists (fs back_world) ''a.mkv''" "mismatched tally0 = 0"
    by code_simp+
  have 5: "distinct (map fst (load_json gone_world))"
    "map_of (load_json gone_world) ''a.mkv'' = Some (example_rec None)"
    by code_simp+
  have 6: "policy_covers All (path_ext (seps example_env) ''a.mkv'')"
    "exists (fs gone_world) (rec_dst_or_default example_env ''a.mkv'' (example_rec None))"
    "\<not> exists (fs gone_world) ''a.mkv''" "missing_src tally0 = 0"
    by code_simp+
  from absent_signature_never_trusted [OF 1 2 3, of "fs back_world" "''a.mp4''" False example_env
      All "[]" False False back_world tally0] 4
  have a: "\<not> already_done (fs back_world) (load_json back_world) ''a.mkv'' ''a.mp4''
   \<and> (''a.mkv'', False) \<notin> set (drop (length (deletions back_world))
          (deletions (fst (cleanup_from_progress example_env All [] False False back_world))))
   \<and> mismatched (snd (cleanup_item example_env All [] False False (back_world, tally0)
                        (''a.mkv'', example_rec None))) = 1"
    by simp
  from absent_signature_never_trusted [OF 5 3, of "fs gone_world" "''a.mp4''" False example_env
      All "[]" False False gone_world tally0] 4 6
  have b: "missing_src (snd (cleanup_item example_env All [] False False (gone_world, tally0)
                        (''a.mkv'', example_rec None))) = 1
   \<and> mismatched (snd (cleanup_item example_env All [] False False (gone_world, tally0)
                        (''a.mkv'', example_rec None))) = 0"
    by simp
  from a b show ?thesis by simp
qed

text \<open>
  The claim as stated fails: with the source still missing, a successful record without
  signature whose destination exists is counted as a missing source, not as changed.
\<close>

theorem absent_signature_not_always_changed:
  "rec_sig (example_rec None) = None
   \<and> rec_success (example_rec None)
   \<and> exists (fs gone_world) (rec_dst (example_rec None))
   \<and> load_json gone_world = [(''a.mkv'', example_rec None)]
   \<and> mismatched (snd (cleanup_from_progress example_env All [] False False gone_world)) = 0
   \<and> missing_src (snd (cleanup_from_progress example_env All [] False False gone_world)) = 1"
  by code_simp

section \<open>Recording and saving the outcome\<close>

lemma mark_progress_lookup:
  "map_of (mark_progress f ts d src dst ok) src =
     Some \<lparr>rec_dst = dst, rec_success = ok,
           rec_sig = (if exists f src then file_sig f src else None), rec_updated_at = ts\<rparr>"
  by (simp add: mark_progress_def Let_def update_conv')

lemma process_transcode_failed:
  "failed (snd (process_transcode e os bin src w)) =
     failed w @ (if fst (process_transcode e os bin src w) = Inr False then [src] else [])"
proof -
  let ?cmd = "build_ffmpeg_cmd_transcode bin src (dest_path (seps e) src) (opt_crf os) (opt_preset os)
                  (if opt_tune os \<noteq> [] then Some (opt_tune os) else None) (opt_lossless os)"
  obtain x w1 where r: "run_ffmpeg_with_streaming e ?cmd w = (x, w1)"
    by (cases "run_ffmpeg_with_streaming e ?cmd w")
  from run_ffmpeg_frame [of e ?cmd w] r have "failed w1 = failed w" by simp
  with r show ?thesis
    by (cases x) (auto simp: process_transcode_def Let_def append_failed_def)
qed

lemma process_mkv_failed:
  "failed (snd (process_mkv e bin src w)) =
     failed w @ (if fst (process_mkv e bin src w) = Inr False then [src] else [])"
proof (cases "encodable e src")
  case False
  then show ?thesis by (simp add: process_mkv_def)
next
  case enc: True
  obtain ta w0 where s: "should_transcode_audio_for_mkv e bin src w = (ta, w0)"
    by (cases "should_transcode_audio_for_mkv e bin src w")
  from should_transcode_frame [of e bin src w] s have f0: "failed w0 = failed w" by simp
  let ?dst = "dest_path (seps e) src"
  let ?cmd = "build_ffmpeg_cmd_remux_mkv bin src ?dst ta False"
  let ?cmd2 = "build_ffmpeg_cmd_remux_mkv bin src ?dst True False"
  obtain x w1 where r1: "run_ffmpeg_with_streaming e ?cmd w0 = (x, w1)"
    by (cases "run_ffmpeg_with_streaming e ?cmd w0")
  from run_ffmpeg_frame [of e ?cmd w0] r1 f0 have f1: "failed w1 = failed w" by simp
  obtain y w2 where r2: "run_ffmpeg_with_streaming e ?cmd2 w1 = (y, w2)"
    by (cases "run_ffmpeg_with_streaming e ?cmd2 w1")
  from run_ffmpeg_frame [of e ?cmd2 w1] r2 f1 have f2: "failed w2 = failed w" by simp
  show ?thesis
    using enc s r1 r2 f1 f2
    by (cases x; cases y) (auto simp: process_mkv_def Let_def append_failed_def)
qed

lemma convert_file_failed:
  "failed (snd (convert_file e os bin src w)) =
     failed w @ (if fst (convert_file e os bin src w) = Inr False then [src] else [])"
  by (simp add: convert_file_def process_mkv_failed process_transcode_failed)

lemma maybe_delete_source_fst_cong:
  "fs w = fs w' \<Longrightarrow> dangling w = dangling w' \<Longrightarrow>
   fst (maybe_delete_source e os src w) = fst (maybe_delete_source e os src w')"
proof -
  assume a: "fs w = fs w'" "dangling w = dangling w'"
  from delete_file_fst_cong [OF a, of e src "opt_permanent os"]
  show ?thesis
    by (auto simp: maybe_delete_source_def Let_def split: option.splits policy.splits prod.splits sum.splits)
qed

lemma maybe_delete_source_untruthy:
  "\<not> policy_truthy (opt_delete_after_policy os) \<Longrightarrow>
   maybe_delete_source e os src w = (Inr (), w)"
  by (auto simp: maybe_delete_source_def policy_truthy_def Let_def split: option.splits policy.splits)

lemma convert_file_not_encodable:
  "\<not> encodable e src \<Longrightarrow> convert_file e os bin src w = (Inl Raised, w)"
  by (simp add: convert_file_def process_mkv_def process_transcode_def)

lemma run_task_outcome:
  assumes ns: "\<not> (\<not> opt_force os \<and> already_done (fs (wld st)) (db st) src (dest_path (seps e) src))"
    and enc: "encodable e src"
  shows "skipped (run_task e os bin st src) = skipped st
       \<and> died (run_task e os bin st src) = died st
       \<and> procs (wld (run_task e os bin st src)) = procs (snd (convert_file e os bin src (wld st)))
       \<and> progress_file (wld (run_task e os bin st src)) = Some (db (run_task e os bin st src))
       \<and> nsaves (wld st) < nsaves (wld (run_task e os bin st src))
       \<and> success (run_task e os bin st src) =
           (if fst (convert_file e os bin src (wld st)) = Inr True
            then Suc (success st) else success st)
       \<and> failed (wld (run_task e os bin st src)) =
           failed (wld st) @
             (if fst (convert_file e os bin src (wld st)) = Inr True
                 \<and> fst (maybe_delete_source e os src (snd (convert_file e os bin src (wld st))))
                     \<noteq> Inl Raised
              then [] else [src])
       \<and> (\<exists>r. map_of (db (run_task e os bin st src)) src = Some r
              \<and> rec_dst r = dest_path (seps e) src
              \<and> rec_success r =
                  (fst (convert_file e os bin src (wld st)) = Inr True
                   \<and> fst (maybe_delete_source e os src (snd (convert_file e os bin src (wld st))))
                       \<noteq> Inl Raised))"
proof -
  let ?dst = "dest_path (seps e) src"
  obtain res w1 where cv: "convert_file e os bin src (wld st) = (res, w1)"
    by (cases "convert_file e os bin src (wld st)")
  from convert_file_frame [of e os bin src "wld st"] cv
  have f1: "nsaves w1 = nsaves (wld st)" by simp
  from convert_file_failed [of e os bin src "wld st"] cv
  have fl: "failed w1 = failed (wld st) @ (if res = Inr False then [src] else [])" by simp
  show ?thesis
  proof (cases res)
    case (Inl x)
    let ?st1 = "st\<lparr>idx := Suc (idx st), wld := w1\<rparr>"
    have rt: "run_task e os bin st src = crash e src ?st1"
      using run_task_raise [OF ns] cv Inl by simp
    have "map_of (db (crash e src ?st1)) src =
        Some \<lparr>rec_dst = ?dst, rec_success = False,
           rec_sig = (if exists (fs w1) src then file_sig (fs w1) src else None),
           rec_updated_at = now e (clock w1)\<rparr>"
      by (simp add: crash_recorded [OF enc] mark_progress_lookup)
    with rt cv Inl f1 fl show ?thesis
      by (simp add: crash_frame crash_recorded [OF enc])
  next
    case (Inr ok)
    show ?thesis
    proof (cases ok)
      case False
      let ?db1 = "mark_progress (fs w1) (now e (clock w1)) (db st) src ?dst False"
      have rt: "run_task e os bin st src =
          st\<lparr>idx := Suc (idx st), db := ?db1,
             wld := save_json ?db1 (w1\<lparr>clock := Suc (clock w1)\<rparr>)\<rparr>"
        using run_task_false [OF ns] cv Inr False by simp
      have "map_of ?db1 src =
        Some \<lparr>rec_dst = ?dst, rec_success = False,
           rec_sig = (if exists (fs w1) src then file_sig (fs w1) src else None),
           rec_updated_at = now e (clock w1)\<rparr>"
        by (rule mark_progress_lookup)
      with rt cv Inr False f1 fl show ?thesis
        by (simp add: save_json_def)
    next
      case True
      let ?st2 = "after_convert e st src w1"
      have rt: "run_task e os bin st src =
        (if policy_truthy (opt_delete_after_policy os)
         then (case maybe_delete_source e os src (wld ?st2) of
                 (Inl _, w3) \<Rightarrow> crash e src (?st2\<lparr>wld := w3\<rparr>)
               | (Inr _, w3) \<Rightarrow> ?st2\<lparr>wld := w3\<rparr>)
         else ?st2)"
        using run_task_true [OF ns, of bin w1] cv Inr True by (simp add: Let_def)
      have l2: "map_of (db ?st2) src =
        Some \<lparr>rec_dst = ?dst, rec_success = True,
           rec_sig = (if exists (fs w1) src then file_sig (fs w1) src else None),
           rec_updated_at = now e (clock w1)\<rparr>"
        by (simp add: after_convert_frame mark_progress_lookup)
      have same: "fst (maybe_delete_source e os src (wld ?st2)) = fst (maybe_delete_source e os src w1)"
        by (rule maybe_delete_source_fst_cong) (simp_all add: after_convert_def save_json_def)
      have d2: "died ?st2 = died st" by (simp add: after_convert_def)
      from fl Inr True have fl1: "failed w1 = failed (wld st)" by simp
      show ?thesis
      proof (cases "policy_truthy (opt_delete_after_policy os)")
        case pf: False
        from maybe_delete_source_untruthy [OF pf, of e src w1]
        have "fst (maybe_delete_source e os src w1) \<noteq> Inl Raised" by simp
        with rt pf l2 f1 fl1 cv Inr True d2 show ?thesis
          by (simp add: after_convert_frame)
      next
        case pt: True
        obtain y w3 where m: "maybe_delete_source e os src (wld ?st2) = (y, w3)"
          by (cases "maybe_delete_source e os src (wld ?st2)")
        from maybe_delete_source_frame [of e os src "wld ?st2"] m
        have f3: "progress_file w3 = Some (db ?st2)" "nsaves w3 = Suc (nsaves w1)"
          "procs w3 = procs w1" "failed w3 = failed (wld st)"
          by (simp_all add: after_convert_frame fl1)
        from same m have y: "fst (maybe_delete_source e os src w1) = y" by simp
        show ?thesis
        proof (cases y)
          case (Inl a)
          then have ya: "y = Inl Raised" by (cases a) simp
          have rt': "run_task e os bin st src = crash e src (?st2\<lparr>wld := w3\<rparr>)"
            using rt pt m Inl by simp
          have "map_of (db (crash e src (?st2\<lparr>wld := w3\<rparr>))) src =
            Some \<lparr>rec_dst = ?dst, rec_success = False,
               rec_sig = (if exists (fs w3) src then file_sig (fs w3) src else None),
               rec_updated_at = now e (clock w3)\<rparr>"
            by (simp add: crash_recorded [OF enc] mark_progress_lookup)
          with rt' f3 f1 cv Inr True y ya d2 show ?thesis
            by (simp add: crash_frame crash_recorded [OF enc] after_convert_frame)
        next
          case (Inr b)
          have rt': "run_task e os bin st src = ?st2\<lparr>wld := w3\<rparr>"
            using rt pt m Inr by simp
          from y Inr have "fst (maybe_delete_source e os src w1) \<noteq> Inl Raised" by simp
          with rt' l2 f3 f1 cv \<open>res = Inr ok\<close> True d2 show ?thesis
            by (simp add: after_convert_frame)
        qed
      qed
    qed
  qed
qed

lemma run_task_not_encodable:
  assumes ns: "\<not> (\<not> opt_force os \<and> already_done (fs (wld st)) (db st) src (dest_path (seps e) src))"
    and nenc: "\<not> encodable e src"
  shows "run_task e os bin st src = st\<lparr>idx := Suc (idx st), died := True\<rparr>"
proof -
  from convert_file_not_encodable [OF nenc]
  have "convert_file e os bin src (wld st) = (Inl Raised, wld st)" .
  from run_task_raise [OF ns this] crash_died [OF nenc] show ?thesis by simp
qed

text \<open>
  Claim C5, as amended. A task that is not skipped and whose source name can be written
  to the log leaves, when the loop body returns, a record for its source in the store
  and the whole store written to the progress file by at least one new save. The record
  has \<open>success\<close> false when the conversion failed or raised, and \<open>success\<close> true
  when the conversion returned success and the delete-after step did not raise. A
  skipped task changes nothing but the counters: no record is made and nothing is
  saved.

  The theorem says more than the amended claim. It gives the recorded flag in every
  case (it is false also when the delete-after step raised), the failed list and the
  counter of converted tasks, and it covers a source name that cannot be written to
  the log: there the first log write raises and so does the handler's, nothing is
  recorded or saved, and the run ends.
\<close>

theorem outcome_recorded_and_saved:
  "let dst = dest_path (seps e) src;
       cv = convert_file e os bin src (wld st);
       kept = (fst cv = Inr True \<and> fst (maybe_delete_source e os src (snd cv)) \<noteq> Inl Raised);
       st' = run_task e os bin st src
   in if \<not> opt_force os \<and> already_done (fs (wld st)) (db st) src dst
      then st' = st\<lparr>idx := Suc (idx st), skipped := Suc (skipped st)\<rparr>
      else if \<not> encodable e src
      then st' = st\<lparr>idx := Suc (idx st), died := True\<rparr>
      else skipped st' = skipped st \<and> died st' = died st
         \<and> progress_file (wld st') = Some (db st')
         \<and> nsaves (wld st) < nsaves (wld st')
         \<and> success st' = (if fst cv = Inr True then Suc (success st) else success st)
         \<and> failed (wld st') = failed (wld st) @ (if kept then [] else [src])
         \<and> (\<exists>r. map_of (db st') src = Some r \<and> rec_dst r = dst \<and> rec_success r = kept)"
proof (cases "\<not> opt_force os \<and> already_done (fs (wld st)) (db st) src (dest_path (seps e) src)")
  case True
  then show ?thesis by (simp add: run_task_skip Let_def)
next
  case ns: False
  show ?thesis
  proof (cases "encodable e src")
    case False
    from run_task_not_encodable [OF ns False, of bin] ns False show ?thesis
      by (auto simp add: Let_def)
  next
    case True
    from run_task_outcome [OF ns True, of bin] ns True show ?thesis
      by (auto simp add: Let_def)
  qed
qed

theorem outcome_recorded_and_saved_witness:
  "progress_file (wld (run_task example_env example_opts ''ffmpeg'' fresh_state ''a.mkv''))
       = Some (db (run_task example_env example_opts ''ffmpeg'' fresh_state ''a.mkv''))
   \<and> 0 < nsaves (wld (run_task example_env example_opts ''ffmpeg'' fresh_state ''a.mkv''))
   \<and> success (run_task example_env example_opts ''ffmpeg'' fresh_state ''a.mkv'') = 1
   \<and> (\<exists>r. map_of (db (run_task example_env example_opts ''ffmpeg'' fresh_state ''a.mkv'')) ''a.mkv''
             = Some r \<and> rec_dst r = ''a.mp4'' \<and> rec_success r)
   \<and> success (run_task locked_env delete_opts ''ffmpeg'' fresh_state ''a.mkv'') = 1
   \<and> failed (wld (run_task locked_env delete_opts ''ffmpeg'' fresh_state ''a.mkv'')) = [''a.mkv'']
   \<and> (\<exists>r. map_of (db (run_task locked_env delete_opts ''ffmpeg'' fresh_state ''a.mkv'')) ''a.mkv''
             = Some r \<and> \<not> rec_success r)
   \<and> success (run_task fail_env example_opts ''ffmpeg'' fresh_state ''a.mkv'') = 0
   \<and> failed (wld (run_task fail_env example_opts ''ffmpeg'' fresh_state ''a.mkv'')) = [''a.mkv'']
   \<and> (\<exists>r. map_of (db (run_task fail_env example_opts ''ffmpeg'' fresh_state ''a.mkv'')) ''a.mkv''
             = Some r \<and> \<not> rec_success r)
   \<and> run_task example_env example_opts ''ffmpeg'' done_state ''a.mkv''
       = done_state\<lparr>idx := 1, skipped := 1\<rparr>
   \<and> run_task odd_name_env example_opts ''ffmpeg'' fresh_state ''a.mkv''
       = fresh_state\<lparr>idx := 1, died := True\<rparr>"
proof -
  have ns: "\<not> already_done (fs (wld fresh_state)) (db fresh_state) ''a.mkv'' ''a.mp4''"
    by code_simp
  have sk: "\<not> opt_force example_opts"
    "already_done (fs (wld done_state)) (db done_state) ''a.mkv'' ''a.mp4''"
    by code_simp+
  have enc: "encodable example_env ''a.mkv''" "encodable locked_env ''a.mkv''"
    "encodable fail_env ''a.mkv''" "\<not> encodable odd_name_env ''a.mkv''"
    by code_simp+
  have d: "dest_path (seps example_env) ''a.mkv'' = ''a.mp4''"
    "dest_path (seps locked_env) ''a.mkv'' = ''a.mp4''"
    "dest_path (seps fail_env) ''a.mkv'' = ''a.mp4''"
    "dest_path (seps odd_name_env) ''a.mkv'' = ''a.mp4''"
    by code_simp+
  have z: "success fresh_state = 0" "nsaves (wld fresh_state) = 0" "failed (wld fresh_state) = []"
    "idx fresh_state = 0" "idx done_state = 0" "skipped done_state = 0"
    by code_simp+
  have c1: "fst (convert_file example_env example_opts ''ffmpeg'' ''a.mkv'' (wld fresh_state)) = Inr True"
    "fst (maybe_delete_source example_env example_opts ''a.mkv''
        (snd (convert_file example_env example_opts ''ffmpeg'' ''a.mkv'' (wld fresh_state)))) \<noteq> Inl Raised"
    by code_simp+
  have c2: "fst (convert_file locked_env delete_opts ''ffmpeg'' ''a.mkv'' (wld fresh_state)) = Inr True"
    "fst (maybe_delete_source locked_env delete_opts ''a.mkv''
        (snd (convert_file locked_env delete_opts ''ffmpeg'' ''a.mkv'' (wld fresh_state)))) = Inl Raised"
    by code_simp+
  have c3: "fst (convert_file fail_env example_opts ''ffmpeg'' ''a.mkv'' (wld fresh_state)) = Inr False"
    by code_simp
  from outcome_recorded_and_saved [of example_env "''a.mkv''" example_opts "''ffmpeg''" fresh_state]
    ns enc d z c1
  have a: "progress_file (wld (run_task example_env example_opts ''ffmpeg'' fresh_state ''a.mkv''))
       = Some (db (run_task example_env example_opts ''ffmpeg'' fresh_state ''a.mkv''))
   \<and> 0 < nsaves (wld (run_task example_env example_opts ''ffmpeg'' fresh_state ''a.mkv''))
   \<and> success (run_task example_env example_opts ''ffmpeg'' fresh_state ''a.mkv'') = 1
   \<and> (\<exists>r. map_of (db (run_task example_env example_opts ''ffmpeg'' fresh_state ''a.mkv'')) ''a.mkv''
             = Some r \<and> rec_dst r = ''a.mp4'' \<and> rec_success r)"
    by (simp add: Let_def)
  from outcome_recorded_and_saved [of locked_env "''a.mkv''" delete_opts "''ffmpeg''" fresh_state]
    ns enc d z c2
  have b: "success (run_task locked_env delete_opts ''ffmpeg'' fresh_state ''a.mkv'') = 1
   \<and> failed (wld (run_task locked_env delete_opts ''ffmpeg'' fresh_state ''a.mkv'')) = [''a.mkv'']
   \<and> (\<exists>r. map_of (db (run_task locked_env delete_opts ''ffmpeg'' fresh_state ''a.mkv'')) ''a.mkv''
             = Some r \<and> \<not> rec_success r)"
    by (auto simp add: Let_def)
  from outcome_recorded_and_saved [of fail_env "''a.mkv''" example_opts "''ffmpeg''" fresh_state]
    ns enc d z c3
  have c: "success (run_task fail_env example_opts ''ffmpeg'' fresh_state ''a.mkv'') = 0
   \<and> failed (wld (run_task fail_env example_opts ''ffmpeg'' fresh_state ''a.mkv'')) = [''a.mkv'']
   \<and> (\<exists>r. map_of (db (run_task fail_env example_opts ''ffmpeg'' fresh_state ''a.mkv'')) ''a.mkv''
             = Some r \<and> \<not> rec_success r)"
    by (auto simp add: Let_def)
  from outcome_recorded_and_saved [of example_env "''a.mkv''" example_opts "''ffmpeg''" done_state]
    sk d z
  have dd: "run_task example_env example_opts ''ffmpeg'' done_state ''a.mkv''
       = done_state\<lparr>idx := 1, skipped := 1\<rparr>"
    by (simp add: Let_def)
  from outcome_recorded_and_saved [of odd_name_env "''a.mkv''" example_opts "''ffmpeg''" fresh_state]
    ns enc d z
  have ee: "run_task odd_name_env example_opts ''ffmpeg'' fresh_state ''a.mkv''
       = fresh_state\<lparr>idx := 1, died := True\<rparr>"
    by (simp add: Let_def)
  from a b c dd ee show ?thesis by blast
qed

text \<open>
  The claim as stated fails for a skipped task: the run makes no save and does not
  touch the record (the clock that stamps records is not even read). It also fails
  for a task whose name cannot be written to the log: the run ends at it with nothing
  recorded, nothing saved and the next task not started.
\<close>

theorem outcome_not_always_recorded:
  "skipped (run example_env example_opts [''a.mkv''] done_world) = 1
   \<and> idx (run example_env example_opts [''a.mkv''] done_world) = 1
   \<and> nsaves (wld (run example_env example_opts [''a.mkv''] done_world)) = nsaves done_world
   \<and> clock (wld (run example_env example_opts [''a.mkv''] done_world)) = clock done_world
   \<and> db (run example_env example_opts [''a.mkv''] done_world) = load_json done_world
   \<and> idx (run odd_name_env example_opts [''a.mkv'', ''b.mkv''] fresh_world) = 1
   \<and> died (run odd_name_env example_opts [''a.mkv'', ''b.mkv''] fresh_world)
   \<and> success (run odd_name_env example_opts [''a.mkv'', ''b.mkv''] fresh_world) = 0
   \<and> skipped (run odd_name_env example_opts [''a.mkv'', ''b.mkv''] fresh_world) = 0
   \<and> db (run odd_name_env example_opts [''a.mkv'', ''b.mkv''] fresh_world) = []
   \<and> nsaves (wld (run odd_name_env example_opts [''a.mkv'', ''b.mkv''] fresh_world)) = 0
   \<and> progress_file (wld (run odd_name_env example_opts [''a.mkv'', ''b.mkv''] fresh_world)) = None
   \<and> failed (wld (run odd_name_env example_opts [''a.mkv'', ''b.mkv''] fresh_world)) = []"
  by code_simp

section \<open>The delete-after step\<close>

lemma output_ok_iff:
  "output_ok rc f dst = (rc = 0 \<and> (\<exists>s. f dst = Some s \<and> 0 < st_size s))"
  by (auto simp: output_ok_def exists_def split: option.splits)

lemma process_transcode_true_output:
  "process_transcode e os bin src w = (Inr True, w1) \<Longrightarrow>
     \<exists>s. fs w1 (dest_path (seps e) src) = Some s \<and> 0 < st_size s"
  by (auto simp: process_transcode_def Let_def output_ok_iff
      split: sum.splits prod.splits if_splits)

lemma process_mkv_true_output:
  "process_mkv e bin src w = (Inr True, w1) \<Longrightarrow>
     \<exists>s. fs w1 (dest_path (seps e) src) = Some s \<and> 0 < st_size s"
  by (auto simp: process_mkv_def Let_def output_ok_iff
      split: sum.splits prod.splits if_splits)

lemma convert_file_true_output:
  "convert_file e os bin src w = (Inr True, w1) \<Longrightarrow>
     \<exists>s. fs w1 (dest_path (seps e) src) = Some s \<and> 0 < st_size s"
  by (auto simp: convert_file_def dest: process_mkv_true_output process_transcode_true_output
      split: if_splits)

lemma file_sig_exists: "(if exists f p then file_sig f p else None) = file_sig f p"
  by (simp add: exists_def file_sig_def)

lemma delete_after_checks_when_source_exists:
  assumes cv: "convert_file e os bin src w = (Inr True, w1)"
    and pc: "policy_covers pol (path_ext (seps e) src)"
    and ex: "exists (fs w1) src"
  shows "\<exists>r. map_of (db (after_convert e st src w1)) src = Some r
            \<and> progress_file (wld (after_convert e st src w1)) = Some (db (after_convert e st src w1))
            \<and> cleanup_checks e pol [] (fs (wld (after_convert e st src w1))) src r"
proof -
  let ?dst = "dest_path (seps e) src"
  let ?r = "\<lparr>rec_dst = ?dst, rec_success = True,
              rec_sig = file_sig (fs w1) src, rec_updated_at = now e (clock w1)\<rparr>"
  have l: "map_of (db (after_convert e st src w1)) src = Some ?r"
    by (simp add: after_convert_frame mark_progress_lookup file_sig_exists)
  have ne: "?dst \<noteq> []" by (simp add: dest_path_def)
  from convert_file_true_output [OF cv] have exd: "exists (fs w1) ?dst"
    by (auto simp: exists_def)
  from ex obtain sg where sg: "file_sig (fs w1) src = Some sg" by (auto dest: exists_file_sig)
  have "cleanup_checks e pol [] (fs (wld (after_convert e st src w1))) src ?r"
    using pc ex exd ne sg
    by (simp add: cleanup_checks_def after_convert_frame rec_dst_or_default_def)
  with l show ?thesis by (simp add: after_convert_frame)
qed

text \<open>
  Claim C4. The claim says that the source of a converted task is deleted at once only
  under the checks of the cleanup pass: success recorded, destination present, source
  signature equal to the stored one. While the source still exists the loop body
  meets them (the lemma above), but it never checks that the source exists, as the
  cleanup pass does. In the run below the source is removed while the tool runs. The
  tool exits with 0 and leaves a destination of positive size; the record is written
  with \<open>success\<close> true and without signature; and the loop body calls the deletion
  primitive for the missing source. The call raises, the handler puts the source on
  the failed list and overwrites the record with \<open>success\<close> false, although the task
  counts as converted. A cleanup pass on the state in which that call is made (the
  same run with \<open>dry_run\<close> set ends in it) makes no call and counts the source as
  missing.
\<close>

theorem delete_after_missing_source:
  "map_option fst
     (run_tool vanish_env (build_ffmpeg_cmd_remux_mkv ''ffmpeg'' ''a.mkv'' ''a.mp4'' False False)
        1 (fs fresh_world)) = Some 0
   \<and> fst (convert_file vanish_env delete_opts ''ffmpeg'' ''a.mkv'' fresh_world) = Inr True
   \<and> fs (snd (convert_file vanish_env delete_opts ''ffmpeg'' ''a.mkv'' fresh_world)) ''a.mp4''
       = Some \<lparr>st_size = 10, st_mtime_ns = 5, st_isdir = False\<rparr>
   \<and> fs (snd (convert_file vanish_env delete_opts ''ffmpeg'' ''a.mkv'' fresh_world)) ''a.mkv'' = None
   \<and> dangling (snd (convert_file vanish_env delete_opts ''ffmpeg'' ''a.mkv'' fresh_world)) = []
   \<and> deletions (wld (run_task vanish_env delete_opts ''ffmpeg'' fresh_state ''a.mkv''))
       = [(''a.mkv'', False)]
   \<and> success (run_task vanish_env delete_opts ''ffmpeg'' fresh_state ''a.mkv'') = 1
   \<and> failed (wld (run_task vanish_env delete_opts ''ffmpeg'' fresh_state ''a.mkv'')) = [''a.mkv'']
   \<and> progress_file (wld (run_task vanish_env delete_opts ''ffmpeg'' fresh_state ''a.mkv''))
       = Some [(''a.mkv'', \<lparr>rec_dst = ''a.mp4'', rec_success = False, rec_sig = None,
                            rec_updated_at = ''t''\<rparr>)]
   \<and> progress_file (wld (run_task vanish_env dry_opts ''ffmpeg'' fresh_state ''a.mkv''))
       = Some [(''a.mkv'', \<lparr>rec_dst = ''a.mp4'', rec_success = True, rec_sig = None,
                            rec_updated_at = ''t''\<rparr>)]
   \<and> deletions (fst (cleanup_from_progress vanish_env (Exts [''.mkv'']) [] False False
         (wld (run_task vanish_env dry_opts ''ffmpeg'' fresh_state ''a.mkv'')))) = []
   \<and> missing_src (snd (cleanup_from_progress vanish_env (Exts [''.mkv'']) [] False False
         (wld (run_task vanish_env dry_opts ''ffmpeg'' fresh_state ''a.mkv'')))) = 1"
  by code_simp

section \<open>The two attempts on an MKV source\<close>

lemma run_ffmpeg_None:
  "run_tool e cmd (length (procs w)) (fs w) = None \<Longrightarrow>
   run_ffmpeg_with_streaming e cmd w = (Inl Raised, w\<lparr>procs := procs w @ [cmd]\<rparr>)"
  by (simp add: run_ffmpeg_with_streaming_def Let_def)

lemma run_ffmpeg_Some:
  "run_tool e cmd (length (procs w)) (fs w) = Some (rc, f) \<Longrightarrow>
   run_ffmpeg_with_streaming e cmd w = (Inr rc, w\<lparr>procs := procs w @ [cmd], fs := f\<rparr>)"
  by (simp add: run_ffmpeg_with_streaming_def Let_def)

lemma process_mkv_attempts:
  assumes enc: "encodable e src"
  shows
  "let dst = dest_path (seps e) src;
       ta = needs_audio_transcode (fst (ffprobe e bin src w));
       w0 = snd (ffprobe e bin src w);
       cmd1 = build_ffmpeg_cmd_remux_mkv bin src dst ta False;
       cmd2 = build_ffmpeg_cmd_remux_mkv bin src dst True False;
       res = fst (process_mkv e bin src w);
       w' = snd (process_mkv e bin src w)
   in prefix (procs w0 @ [cmd1]) (procs w')
    \<and> length (procs w') \<le> length (procs w0) + 2
    \<and> (case run_tool e cmd1 (length (procs w0)) (fs w0) of
         None \<Rightarrow> res = Inl Raised \<and> procs w' = procs w0 @ [cmd1]
       | Some (rc1, f1) \<Rightarrow>
           if output_ok rc1 f1 dst
           then res = Inr True \<and> procs w' = procs w0 @ [cmd1] \<and> fs w' = f1
           else procs w' = procs w0 @ [cmd1, cmd2]
              \<and> (case run_tool e cmd2 (Suc (length (procs w0))) f1 of
                   None \<Rightarrow> res = Inl Raised
                 | Some (rc2, f2) \<Rightarrow>
                     res = Inr (output_ok rc2 f2 dst) \<and> fs w' = f2
                     \<and> (\<not> output_ok rc2 f2 dst \<longrightarrow> failed w' = failed w @ [src])))"
proof -
  let ?dst = "dest_path (seps e) src"
  obtain ss w0 where fp: "ffprobe e bin src w = (ss, w0)" by (cases "ffprobe e bin src w")
  let ?ta = "needs_audio_transcode ss"
  let ?cmd1 = "build_ffmpeg_cmd_remux_mkv bin src ?dst ?ta False"
  let ?cmd2 = "build_ffmpeg_cmd_remux_mkv bin src ?dst True False"
  from ffprobe_frame [of e bin src w] fp have f0: "failed w0 = failed w" by simp
  have st: "should_transcode_audio_for_mkv e bin src w = (?ta, w0)"
    using fp by (simp add: should_transcode_audio_for_mkv_def)
  have pm: "process_mkv e bin src w =
      (case run_ffmpeg_with_streaming e ?cmd1 w0 of
           (Inl x, w1) \<Rightarrow> (Inl x, w1)
         | (Inr rc, w1) \<Rightarrow>
             if output_ok rc (fs w1) ?dst then (Inr True, w1)
             else (case run_ffmpeg_with_streaming e ?cmd2 w1 of
                        (Inl x, w2) \<Rightarrow> (Inl x, w2)
                      | (Inr rc2, w2) \<Rightarrow>
                          if output_ok rc2 (fs w2) ?dst then (Inr True, w2)
                          else (Inr False, append_failed src w2)))"
    unfolding process_mkv_def Let_def by (simp add: st enc)
  have goal: "prefix (procs w0 @ [?cmd1]) (procs (snd (process_mkv e bin src w)))
    \<and> length (procs (snd (process_mkv e bin src w))) \<le> length (procs w0) + 2
    \<and> (case run_tool e ?cmd1 (length (procs w0)) (fs w0) of
         None \<Rightarrow> fst (process_mkv e bin src w) = Inl Raised
                \<and> procs (snd (process_mkv e bin src w)) = procs w0 @ [?cmd1]
       | Some (rc1, f1) \<Rightarrow>
           if output_ok rc1 f1 ?dst
           then fst (process_mkv e bin src w) = Inr True
              \<and> procs (snd (process_mkv e bin src w)) = procs w0 @ [?cmd1]
              \<and> fs (snd (process_mkv e bin src w)) = f1
           else procs (snd (process_mkv e bin src w)) = procs w0 @ [?cmd1, ?cmd2]
              \<and> (case run_tool e ?cmd2 (Suc (length (procs w0))) f1 of
                   None \<Rightarrow> fst (process_mkv e bin src w) = Inl Raised
                 | Some (rc2, f2) \<Rightarrow>
                     fst (process_mkv e bin src w) = Inr (output_ok rc2 f2 ?dst)
                     \<and> fs (snd (process_mkv e bin src w)) = f2
                     \<and> (\<not> output_ok rc2 f2 ?dst \<longrightarrow>
                          failed (snd (process_mkv e bin src w)) = failed w @ [src])))"
  proof (cases "run_tool e ?cmd1 (length (procs w0)) (fs w0)")
    case None
    from run_ffmpeg_None [OF None] pm None show ?thesis by simp
  next
    case (Some a)
    obtain rc1 f1 where a: "a = (rc1, f1)" by (cases a)
    let ?w1 = "w0\<lparr>procs := procs w0 @ [?cmd1], fs := f1\<rparr>"
    have r1: "run_ffmpeg_with_streaming e ?cmd1 w0 = (Inr rc1, ?w1)"
      using Some a by (simp add: run_ffmpeg_Some)
    show ?thesis
    proof (cases "output_ok rc1 f1 ?dst")
      case True
      with pm r1 Some a show ?thesis by simp
    next
      case nok: False
      have pm2: "process_mkv e bin src w =
         (case run_ffmpeg_with_streaming e ?cmd2 ?w1 of
                        (Inl x, w2) \<Rightarrow> (Inl x, w2)
                      | (Inr rc2, w2) \<Rightarrow>
                          if output_ok rc2 (fs w2) ?dst then (Inr True, w2)
                          else (Inr False, append_failed src w2))"
        using pm r1 nok by simp
      show ?thesis
      proof (cases "run_tool e ?cmd2 (Suc (length (procs w0))) f1")
        case None
        then have "run_tool e ?cmd2 (length (procs ?w1)) (fs ?w1) = None" by simp
        from run_ffmpeg_None [OF this] pm2 None Some a nok show ?thesis by simp
      next
        case s2: (Some b)
        obtain rc2 f2 where b: "b = (rc2, f2)" by (cases b)
        from s2 b have "run_tool e ?cmd2 (length (procs ?w1)) (fs ?w1) = Some (rc2, f2)" by simp
        from run_ffmpeg_Some [OF this] pm2 s2 b Some a nok f0 show ?thesis
          by (simp add: append_failed_def)
      qed
    qed
  qed
  from goal fp show ?thesis by (simp add: Let_def)
qed

lemma remux_cmd_explicit:
  "build_ffmpeg_cmd_remux_mkv bin src dst ta False =
     [bin, ''-loglevel'', ''warning'', ''-hide_banner'', ''-nostats'', ''-y'',
      ''-fflags'', ''+genpts+discardcorrupt'', ''-err_detect'', ''ignore_err'', ''-i'', src,
      ''-map'', ''0:v?'', ''-map'', ''0:a?'', ''-c:v'', ''copy'']
     @ (if ta then [''-c:a'', ''aac'', ''-b:a'', ''192k'', ''-af'', ''aresample=async=1:first_pts=0'']
        else [''-c:a'', ''copy''])
     @ [''-avoid_negative_ts'', ''make_zero'', ''-movflags'', ''+faststart'', dst]"
  by (simp add: build_ffmpeg_cmd_remux_mkv_def AUDIO_BITRATE_def)

lemma mkv_task_attempts_encodable:
  assumes mkv: "path_ext (seps e) src = ''.mkv''"
    and ns: "\<not> (\<not> opt_force os \<and> already_done (fs (wld st)) (db st) src (dest_path (seps e) src))"
    and enc: "encodable e src"
  shows
  "let dst = dest_path (seps e) src;
       probed = procs (snd (ffprobe e bin src (wld st)));
       ta = needs_audio_transcode (fst (ffprobe e bin src (wld st)));
       cmd_head = [bin, ''-loglevel'', ''warning'', ''-hide_banner'', ''-nostats'', ''-y'',
                   ''-fflags'', ''+genpts+discardcorrupt'', ''-err_detect'', ''ignore_err'',
                   ''-i'', src, ''-map'', ''0:v?'', ''-map'', ''0:a?'', ''-c:v'', ''copy''];
       audio_aac = [''-c:a'', ''aac'', ''-b:a'', ''192k'', ''-af'', ''aresample=async=1:first_pts=0''];
       cmd_tail = [''-avoid_negative_ts'', ''make_zero'', ''-movflags'', ''+faststart'', dst];
       primary = cmd_head @ (if ta then audio_aac else [''-c:a'', ''copy'']) @ cmd_tail;
       fallback = cmd_head @ audio_aac @ cmd_tail;
       good = (\<lambda>rc f. rc = (0::int) \<and> (\<exists>s. f dst = Some s \<and> 0 < st_size s));
       st' = run_task e os bin st src;
       converted = (success st' = Suc (success st));
       failed_task = (success st' = success st \<and> src \<in> set (failed (wld st'))
                      \<and> (\<exists>r. map_of (db st') src = Some r \<and> \<not> rec_success r))
   in (case run_tool e primary (length probed) (fs (wld st)) of
         None \<Rightarrow> procs (wld st') = probed @ [primary] \<and> failed_task
       | Some (rc1, f1) \<Rightarrow>
           if good rc1 f1 then procs (wld st') = probed @ [primary] \<and> converted
           else procs (wld st') = probed @ [primary, fallback]
              \<and> (case run_tool e fallback (Suc (length probed)) f1 of
                   None \<Rightarrow> failed_task
                 | Some (rc2, f2) \<Rightarrow> if good rc2 f2 then converted else failed_task))"
proof -
  let ?w = "wld st"
  let ?dst = "dest_path (seps e) src"
  let ?st' = "run_task e os bin st src"
  let ?wp = "snd (ffprobe e bin src ?w)"
  let ?ta = "needs_audio_transcode (fst (ffprobe e bin src ?w))"
  let ?cmd1 = "build_ffmpeg_cmd_remux_mkv bin src ?dst ?ta False"
  let ?cmd2 = "build_ffmpeg_cmd_remux_mkv bin src ?dst True False"
  let ?res = "fst (process_mkv e bin src ?w)"
  let ?w' = "snd (process_mkv e bin src ?w)"
  have cvm: "convert_file e os bin src ?w = process_mkv e bin src ?w"
    using mkv by (simp add: convert_file_def)
  have fs0: "fs ?wp = fs ?w" by (simp add: ffprobe_frame)
  from run_task_outcome [OF ns enc, of bin] cvm
  have pr: "procs (wld ?st') = procs ?w'"
    and su: "success ?st' = (if ?res = Inr True then Suc (success st) else success st)"
    and fl: "?res \<noteq> Inr True \<Longrightarrow> failed (wld ?st') = failed ?w @ [src]"
    and rc: "\<exists>r. map_of (db ?st') src = Some r \<and> (?res \<noteq> Inr True \<longrightarrow> \<not> rec_success r)"
    by auto
  have conv: "?res = Inr True \<Longrightarrow> success ?st' = Suc (success st)"
    using su by simp
  have fail: "?res \<noteq> Inr True \<Longrightarrow>
      success ?st' = success st \<and> src \<in> set (failed (wld ?st'))
      \<and> (\<exists>r. map_of (db ?st') src = Some r \<and> \<not> rec_success r)"
    using su fl rc by auto
  from process_mkv_attempts [OF enc, of bin ?w]
  have pm: "(case run_tool e ?cmd1 (length (procs ?wp)) (fs ?w) of
         None \<Rightarrow> ?res = Inl Raised \<and> procs ?w' = procs ?wp @ [?cmd1]
       | Some (rc1, f1) \<Rightarrow>
           if output_ok rc1 f1 ?dst
           then ?res = Inr True \<and> procs ?w' = procs ?wp @ [?cmd1]
           else procs ?w' = procs ?wp @ [?cmd1, ?cmd2]
              \<and> (case run_tool e ?cmd2 (Suc (length (procs ?wp))) f1 of
                   None \<Rightarrow> ?res = Inl Raised
                 | Some (rc2, f2) \<Rightarrow> ?res = Inr (output_ok rc2 f2 ?dst)))"
    by (auto simp add: Let_def fs0 split: option.splits prod.splits if_splits)
  have goal: "(case run_tool e ?cmd1 (length (procs ?wp)) (fs ?w) of
         None \<Rightarrow> procs (wld ?st') = procs ?wp @ [?cmd1]
             \<and> (success ?st' = success st \<and> src \<in> set (failed (wld ?st'))
                  \<and> (\<exists>r. map_of (db ?st') src = Some r \<and> \<not> rec_success r))
       | Some (rc1, f1) \<Rightarrow>
           if output_ok rc1 f1 ?dst
           then procs (wld ?st') = procs ?wp @ [?cmd1] \<and> success ?st' = Suc (success st)
           else procs (wld ?st') = procs ?wp @ [?cmd1, ?cmd2]
              \<and> (case run_tool e ?cmd2 (Suc (length (procs ?wp))) f1 of
                   None \<Rightarrow> (success ?st' = success st \<and> src \<in> set (failed (wld ?st'))
                  \<and> (\<exists>r. map_of (db ?st') src = Some r \<and> \<not> rec_success r))
                 | Some (rc2, f2) \<Rightarrow>
                     if output_ok rc2 f2 ?dst then success ?st' = Suc (success st)
                     else (success ?st' = success st \<and> src \<in> set (failed (wld ?st'))
                  \<and> (\<exists>r. map_of (db ?st') src = Some r \<and> \<not> rec_success r))))"
  proof (cases "run_tool e ?cmd1 (length (procs ?wp)) (fs ?w)")
    case None
    with pm have "?res = Inl Raised" "procs ?w' = procs ?wp @ [?cmd1]" by simp_all
    with None pr fail show ?thesis by simp
  next
    case (Some a)
    obtain rc1 f1 where a: "a = (rc1, f1)" by (cases a)
    show ?thesis
    proof (cases "output_ok rc1 f1 ?dst")
      case True
      with pm Some a have "?res = Inr True" "procs ?w' = procs ?wp @ [?cmd1]" by simp_all
      with Some a True pr conv show ?thesis by simp
    next
      case nok: False
      with pm Some a have p2: "procs ?w' = procs ?wp @ [?cmd1, ?cmd2]"
        and r2: "(case run_tool e ?cmd2 (Suc (length (procs ?wp))) f1 of
                   None \<Rightarrow> ?res = Inl Raised
                 | Some (rc2, f2) \<Rightarrow> ?res = Inr (output_ok rc2 f2 ?dst))"
        by simp_all
      show ?thesis
      proof (cases "run_tool e ?cmd2 (Suc (length (procs ?wp))) f1")
        case None
        with r2 have "?res = Inl Raised" by simp
        with None Some a nok p2 pr fail show ?thesis by simp
      next
        case s2: (Some b)
        obtain rc2 f2 where b: "b = (rc2, f2)" by (cases b)
        from r2 s2 b have rr: "?res = Inr (output_ok rc2 f2 ?dst)" by simp
        show ?thesis
        proof (cases "output_ok rc2 f2 ?dst")
          case True
          with rr conv s2 b Some a nok p2 pr show ?thesis by simp
        next
          case False
          with rr have "?res \<noteq> Inr True" by simp
          from fail [OF this] False s2 b Some a nok p2 pr show ?thesis by simp
        qed
      qed
    qed
  qed
  then show ?thesis
    unfolding Let_def remux_cmd_explicit output_ok_iff append.simps if_True .
qed

text \<open>
  Claim C6, as amended. For a task with extension \<open>.mkv\<close> that is not skipped and
  whose name can be written to the log, the loop body starts, after the probe, the
  primary remux command first: video copied, subtitles not mapped, audio copied or,
  when the probe's decision is to transcode, encoded as AAC at 192k. If that command
  returns with exit code 0 and the destination is there with positive size, the task
  counts as converted and no other command is started. If it returns otherwise,
  exactly one more command is started, the remux with audio encoded as AAC and
  subtitles not mapped; the task counts as converted if that one passes the same
  check, and is failed if not (not counted, on the failed list, recorded with
  \<open>success\<close> false). A command that cannot be launched returns no exit code: the
  task is failed and no further command is started.

  The theorem also covers a name that cannot be written to the log, which the amended
  claim leaves open: no command is started, nothing is recorded, and the run ends.
\<close>

theorem mkv_task_attempts:
  assumes mkv: "path_ext (seps e) src = ''.mkv''"
    and ns: "\<not> (\<not> opt_force os \<and> already_done (fs (wld st)) (db st) src (dest_path (seps e) src))"
  shows
  "if \<not> encodable e src
   then run_task e os bin st src = st\<lparr>idx := Suc (idx st), died := True\<rparr>
   else (let dst = dest_path (seps e) src;
       probed = procs (snd (ffprobe e bin src (wld st)));
       ta = needs_audio_transcode (fst (ffprobe e bin src (wld st)));
       cmd_head = [bin, ''-loglevel'', ''warning'', ''-hide_banner'', ''-nostats'', ''-y'',
                   ''-fflags'', ''+genpts+discardcorrupt'', ''-err_detect'', ''ignore_err'',
                   ''-i'', src, ''-map'', ''0:v?'', ''-map'', ''0:a?'', ''-c:v'', ''copy''];
       audio_aac = [''-c:a'', ''aac'', ''-b:a'', ''192k'', ''-af'', ''aresample=async=1:first_pts=0''];
       cmd_tail = [''-avoid_negative_ts'', ''make_zero'', ''-movflags'', ''+faststart'', dst];
       primary = cmd_head @ (if ta then audio_aac else [''-c:a'', ''copy'']) @ cmd_tail;
       fallback = cmd_head @ audio_aac @ cmd_tail;
       good = (\<lambda>rc f. rc = (0::int) \<and> (\<exists>s. f dst = Some s \<and> 0 < st_size s));
       st' = run_task e os bin st src;
       converted = (success st' = Suc (success st));
       failed_task = (success st' = success st \<and> src \<in> set (failed (wld st'))
                      \<and> (\<exists>r. map_of (db st') src = Some r \<and> \<not> rec_success r))
   in (case run_tool e primary (length probed) (fs (wld st)) of
         None \<Rightarrow> procs (wld st') = probed @ [primary] \<and> failed_task
       | Some (rc1, f1) \<Rightarrow>
           if good rc1 f1 then procs (wld st') = probed @ [primary] \<and> converted
           else procs (wld st') = probed @ [primary, fallback]
              \<and> (case run_tool e fallback (Suc (length probed)) f1 of
                   None \<Rightarrow> failed_task
                 | Some (rc2, f2) \<Rightarrow> if good rc2 f2 then converted else failed_task)))"
proof (cases "encodable e src")
  case False
  then have nt: "(\<not> encodable e src) = True" by simp
  show ?thesis
    unfolding nt if_True by (rule run_task_not_encodable [OF ns False])
next
  case True
  then have nn: "(\<not> encodable e src) = False" by simp
  show ?thesis
    unfolding nn if_False by (rule mkv_task_attempts_encodable [OF mkv ns True])
qed

theorem mkv_task_attempts_witness:
  "success (run_task example_env example_opts ''ffmpeg'' fresh_state ''a.mkv'') = 1
   \<and> length (procs (wld (run_task example_env example_opts ''ffmpeg'' fresh_state ''a.mkv''))) = 2
   \<and> success (run_task retry_env example_opts ''ffmpeg'' fresh_state ''a.mkv'') = 1
   \<and> length (procs (wld (run_task retry_env example_opts ''ffmpeg'' fresh_state ''a.mkv''))) = 3
   \<and> success (run_task fail_env example_opts ''ffmpeg'' fresh_state ''a.mkv'') = 0
   \<and> length (procs (wld (run_task fail_env example_opts ''ffmpeg'' fresh_state ''a.mkv''))) = 3
   \<and> ''a.mkv'' \<in> set (failed (wld (run_task fail_env example_opts ''ffmpeg'' fresh_state ''a.mkv'')))
   \<and> success (run_task nolaunch_env example_opts ''ffmpeg'' fresh_state ''a.mkv'') = 0
   \<and> length (procs (wld (run_task nolaunch_env example_opts ''ffmpeg'' fresh_state ''a.mkv''))) = 2
   \<and> run_task odd_name_env example_opts ''ffmpeg'' fresh_state ''a.mkv''
       = fresh_state\<lparr>idx := 1, died := True\<rparr>"
proof -
  have mkv: "path_ext (seps example_env) ''a.mkv'' = ''.mkv''"
    "path_ext (seps retry_env) ''a.mkv'' = ''.mkv''"
    "path_ext (seps fail_env) ''a.mkv'' = ''.mkv''"
    "path_ext (seps nolaunch_env) ''a.mkv'' = ''.mkv''"
    "path_ext (seps odd_name_env) ''a.mkv'' = ''.mkv''"
    by code_simp+
  have ns: "\<not> (\<not> opt_force example_opts \<and> already_done (fs (wld fresh_state)) (db fresh_state)
               ''a.mkv'' (dest_path (seps example_env) ''a.mkv''))"
    "\<not> (\<not> opt_force example_opts \<and> already_done (fs (wld fresh_state)) (db fresh_state)
               ''a.mkv'' (dest_path (seps retry_env) ''a.mkv''))"
    "\<not> (\<not> opt_force example_opts \<and> already_done (fs (wld fresh_state)) (db fresh_state)
               ''a.mkv'' (dest_path (seps fail_env) ''a.mkv''))"
    "\<not> (\<not> opt_force example_opts \<and> already_done (fs (wld fresh_state)) (db fresh_state)
               ''a.mkv'' (dest_path (seps nolaunch_env) ''a.mkv''))"
    "\<not> (\<not> opt_force example_opts \<and> already_done (fs (wld fresh_state)) (db fresh_state)
               ''a.mkv'' (dest_path (seps odd_name_env) ''a.mkv''))"
    by code_simp+
  have enc: "encodable example_env ''a.mkv''" "encodable retry_env ''a.mkv''"
    "encodable fail_env ''a.mkv''" "encodable nolaunch_env ''a.mkv''"
    "\<not> encodable odd_name_env ''a.mkv''"
    by code_simp+
  have d: "dest_path (seps example_env) ''a.mkv'' = ''a.mp4''"
    "dest_path (seps retry_env) ''a.mkv'' = ''a.mp4''"
    "dest_path (seps fail_env) ''a.mkv'' = ''a.mp4''"
    "dest_path (seps nolaunch_env) ''a.mkv'' = ''a.mp4''"
    by code_simp+
  have l: "length (procs (snd (ffprobe example_env ''ffmpeg'' ''a.mkv'' (wld fresh_state)))) = 1"
    "length (procs (snd (ffprobe retry_env ''ffmpeg'' ''a.mkv'' (wld fresh_state)))) = 1"
    "length (procs (snd (ffprobe fail_env ''ffmpeg'' ''a.mkv'' (wld fresh_state)))) = 1"
    "length (procs (snd (ffprobe nolaunch_env ''ffmpeg'' ''a.mkv'' (wld fresh_state)))) = 1"
    by code_simp+
  have ta: "\<not> needs_audio_transcode (fst (ffprobe example_env ''ffmpeg'' ''a.mkv'' (wld fresh_state)))"
    "\<not> needs_audio_transcode (fst (ffprobe retry_env ''ffmpeg'' ''a.mkv'' (wld fresh_state)))"
    "\<not> needs_audio_transcode (fst (ffprobe fail_env ''ffmpeg'' ''a.mkv'' (wld fresh_state)))"
    "\<not> needs_audio_transcode (fst (ffprobe nolaunch_env ''ffmpeg'' ''a.mkv'' (wld fresh_state)))"
    by code_simp+
  have z: "success fresh_state = 0" "idx fresh_state = 0" by code_simp+
  have e0: "run_tool example_env c n f = Some (0, f(last c \<mapsto> example_file))" for c n f
    by (simp add: example_env_def)
  have e1: "run_tool retry_env c n f =
      (if n = 1 then Some (1, f) else Some (0, f(last c \<mapsto> example_file)))" for c n f
    by (simp add: retry_env_def example_env_def)
  have e2: "run_tool fail_env c n f = Some (1, f)" for c n f
    by (simp add: fail_env_def example_env_def)
  have e3: "run_tool nolaunch_env c n f = None" for c n f
    by (simp add: nolaunch_env_def example_env_def)
  have sz: "0 < st_size example_file" by (simp add: example_file_def)
  from mkv_task_attempts [OF mkv(1) ns(1), of "''ffmpeg''"] enc(1)
  have a: "success (run_task example_env example_opts ''ffmpeg'' fresh_state ''a.mkv'') = 1
   \<and> length (procs (wld (run_task example_env example_opts ''ffmpeg'' fresh_state ''a.mkv''))) = 2"
    by (simp add: Let_def d l ta z e0 sz)
  from mkv_task_attempts [OF mkv(2) ns(2), of "''ffmpeg''"] enc(2)
  have b: "success (run_task retry_env example_opts ''ffmpeg'' fresh_state ''a.mkv'') = 1
   \<and> length (procs (wld (run_task retry_env example_opts ''ffmpeg'' fresh_state ''a.mkv''))) = 3"
    by (simp add: Let_def d l ta z e1 sz)
  from mkv_task_attempts [OF mkv(3) ns(3), of "''ffmpeg''"] enc(3)
  have c: "success (run_task fail_env example_opts ''ffmpeg'' fresh_state ''a.mkv'') = 0
   \<and> length (procs (wld (run_task fail_env example_opts ''ffmpeg'' fresh_state ''a.mkv''))) = 3
   \<and> ''a.mkv'' \<in> set (failed (wld (run_task fail_env example_opts ''ffmpeg'' fresh_state ''a.mkv'')))"
    by (simp add: Let_def d l ta z e2)
  from mkv_task_attempts [OF mkv(4) ns(4), of "''ffmpeg''"] enc(4)
  have dd: "success (run_task nolaunch_env example_opts ''ffmpeg'' fresh_state ''a.mkv'') = 0
   \<and> length (procs (wld (run_task nolaunch_env example_opts ''ffmpeg'' fresh_state ''a.mkv''))) = 2"
    by (simp add: Let_def d l ta z e3)
  from mkv_task_attempts [OF mkv(5) ns(5), of "''ffmpeg''"] enc(5) z
  have ee: "run_task odd_name_env example_opts ''ffmpeg'' fresh_state ''a.mkv''
       = fresh_state\<lparr>idx := 1, died := True\<rparr>"
    by simp
  from a b c dd ee show ?thesis by blast
qed

text \<open>
  The claim as stated fails when the primary command cannot be launched: it does not
  yield a converted task, and no fallback command is started. It also fails for a task
  whose name cannot be written to the log: no command is started at all.
\<close>

theorem no_fallback_without_launch:
  "map_option fst
     (run_tool nolaunch_env
        [''ffmpeg'', ''-loglevel'', ''warning'', ''-hide_banner'', ''-nostats'', ''-y'',
         ''-fflags'', ''+genpts+discardcorrupt'', ''-err_detect'', ''ignore_err'',
         ''-i'', ''a.mkv'', ''-map'', ''0:v?'', ''-map'', ''0:a?'', ''-c:v'', ''copy'',
         ''-c:a'', ''copy'',
         ''-avoid_negative_ts'', ''make_zero'', ''-movflags'', ''+faststart'', ''a.mp4'']
        1 (fs fresh_world)) = None
   \<and> path_ext (seps nolaunch_env) ''a.mkv'' = ''.mkv''
   \<and> procs (wld (run_task nolaunch_env example_opts ''ffmpeg'' fresh_state ''a.mkv'')) =
       [[''ffmpeg'', ''-hide_banner'', ''-v'', ''error'', ''-i'', ''a.mkv''],
        [''ffmpeg'', ''-loglevel'', ''warning'', ''-hide_banner'', ''-nostats'', ''-y'',
         ''-fflags'', ''+genpts+discardcorrupt'', ''-err_detect'', ''ignore_err'',
         ''-i'', ''a.mkv'', ''-map'', ''0:v?'', ''-map'', ''0:a?'', ''-c:v'', ''copy'',
         ''-c:a'', ''copy'',
         ''-avoid_negative_ts'', ''make_zero'', ''-movflags'', ''+faststart'', ''a.mp4'']]
   \<and> success (run_task nolaunch_env example_opts ''ffmpeg'' fresh_state ''a.mkv'') = 0
   \<and> skipped (run_task nolaunch_env example_opts ''ffmpeg'' fresh_state ''a.mkv'') = 0
   \<and> procs (wld (run_task odd_name_env example_opts ''ffmpeg'' fresh_state ''a.mkv'')) = []
   \<and> success (run_task odd_name_env example_opts ''ffmpeg'' fresh_state ''a.mkv'') = 0
   \<and> skipped (run_task odd_name_env example_opts ''ffmpeg'' fresh_state ''a.mkv'') = 0
   \<and> died (run_task odd_name_env example_opts ''ffmpeg'' fresh_state ''a.mkv'')"
  by code_simp

end
